theory Spec2Isabelle
  imports Complex_Main "HOL-Library.Multiset"
begin

section \<open>Data model\<close>

text \<open>
  Rows of the relational store, with the columns the analytics services read.
  Timestamps are JavaScript epoch milliseconds (\<open>int\<close>); amounts are JavaScript numbers,
  modelled as exact reals (the rounding error of binary floating point is not modelled).
\<close>

datatype tx_status = Pending | Completed | Failed | Refunded

record transaction =
  t_id :: int
  t_customer_id :: int
  t_product_id :: int
  t_total_amount :: real
  t_status :: tx_status
  t_timestamp :: int

record customer =
  c_id :: int
  c_loyalty_tier :: "string option"

record product =
  p_id :: int
  p_stock_quantity :: int

record analytics_row =
  a_customer_id :: int
  a_recency_score :: int
  a_frequency_score :: int
  a_monetary_score :: int
  a_rfm_score :: int
  a_rfm_segment :: "string option"
  a_recency_days :: "int option"
  a_frequency_count :: "int option"
  a_monetary_value :: "real option"
  a_clv_predicted :: real
  a_clv_confidence :: "real option"
  a_churn_risk_score :: int
  a_churn_risk_level :: "string option"
  a_churn_indicators :: "string list option"
  a_last_calculated :: int

record recommendation_row =
  r_customer_id :: int
  r_product_id :: int
  r_recommendation_score :: real
  r_recommendation_type :: string
  r_reason :: "string option"
  r_generated_at :: int
  r_expires_at :: int

record db =
  customers :: "customer list"
  transactions :: "transaction list"
  products :: "product list"
  customer_analytics :: "analytics_row list"
  product_recommendations :: "recommendation_row list"

datatype error = NotFound | Upstream

definition ms_per_day :: int where
  "ms_per_day = 1000 * 60 * 60 * 24"

text \<open>\<open>Customer.findByPk(customerId)\<close>.\<close>

definition findCustomer :: "db \<Rightarrow> int \<Rightarrow> customer option" where
  "findCustomer d customerId = find (\<lambda>c. c_id c = customerId) (customers d)"

text \<open>
  \<open>Transaction.findAll({where: {customer_id, status: 'completed'}, order: [['timestamp', dir]]})\<close>.
  The sort is stable on the table order; the order of rows with equal timestamps is the
  database's choice in the source.
\<close>

definition completedOf :: "db \<Rightarrow> int \<Rightarrow> transaction list" where
  "completedOf d customerId =
     filter (\<lambda>t. t_customer_id t = customerId \<and> t_status t = Completed) (transactions d)"

definition completedDesc :: "db \<Rightarrow> int \<Rightarrow> transaction list" where
  "completedDesc d customerId = sort_key (\<lambda>t. - t_timestamp t) (completedOf d customerId)"

definition completedAsc :: "db \<Rightarrow> int \<Rightarrow> transaction list" where
  "completedAsc d customerId = sort_key t_timestamp (completedOf d customerId)"

text \<open>\<open>txs.reduce((sum, t) => sum + parseFloat(t.total_amount), 0)\<close>.\<close>

definition sumAmounts :: "transaction list \<Rightarrow> real" where
  "sumAmounts txs = foldl (\<lambda>sum t. sum + t_total_amount t) 0 txs"

text \<open>\<open>parseFloat(x.toFixed(2))\<close>: nearest multiple of 0.01, ties away from zero.\<close>

definition toFixed2 :: "real \<Rightarrow> real" where
  "toFixed2 x =
     (if x < 0 then - (of_int \<lfloor>(- x) * 100 + 1 / 2\<rfloor> / 100)
      else of_int \<lfloor>x * 100 + 1 / 2\<rfloor> / 100)"

section \<open>RFM scorer\<close>

record rfm_result =
  rfm_customer_id :: int
  recency_days :: int
  recency_score :: int
  frequency_count :: int
  frequency_score :: int
  monetary_value :: real
  monetary_score :: int
  rfm_score :: int
  rfm_segment :: string

definition calculateRecencyScore :: "int \<Rightarrow> int" where
  "calculateRecencyScore days =
     (if days \<le> 30 then 5
      else if days \<le> 60 then 4
      else if days \<le> 90 then 3
      else if days \<le> 180 then 2
      else 1)"

definition calculateFrequencyScore :: "int \<Rightarrow> int" where
  "calculateFrequencyScore count' =
     (if count' \<ge> 20 then 5
      else if count' \<ge> 10 then 4
      else if count' \<ge> 5 then 3
      else if count' \<ge> 2 then 2
      else 1)"

definition calculateMonetaryScore :: "real \<Rightarrow> int" where
  "calculateMonetaryScore amount =
     (if amount \<ge> 10000 then 5
      else if amount \<ge> 5000 then 4
      else if amount \<ge> 2000 then 3
      else if amount \<ge> 500 then 2
      else 1)"

definition determineSegment :: "int \<Rightarrow> int \<Rightarrow> int \<Rightarrow> int \<Rightarrow> string" where
  "determineSegment rfmScore r f m =
     (if rfmScore \<ge> 13 \<and> r \<ge> 4 \<and> f \<ge> 4 \<and> m \<ge> 4 then ''Champions''
      else if rfmScore \<ge> 10 \<and> f \<ge> 3 \<and> m \<ge> 3 then ''Loyal''
      else if rfmScore \<ge> 8 \<and> r \<le> 2 \<and> (f \<ge> 3 \<or> m \<ge> 3) then ''At Risk''
      else if rfmScore \<le> 7 \<or> r = 1 then ''Lost''
      else ''Potential'')"

definition calculateCustomerRFM :: "db \<Rightarrow> int \<Rightarrow> int \<Rightarrow> error + rfm_result" where
  "calculateCustomerRFM d now customerId =
     (case findCustomer d customerId of
        None \<Rightarrow> Inl NotFound
      | Some customer \<Rightarrow>
          (case completedDesc d customerId of
             [] \<Rightarrow> Inr \<lparr> rfm_customer_id = customerId, recency_days = 9999, recency_score = 1,
                        frequency_count = 0, frequency_score = 1, monetary_value = 0,
                        monetary_score = 1, rfm_score = 3, rfm_segment = ''Lost'' \<rparr>
           | t0 # rest \<Rightarrow>
               (let transactions = t0 # rest;
                    lastPurchase = t_timestamp t0;
                    recencyDays = (now - lastPurchase) div ms_per_day;
                    frequencyCount = int (length transactions);
                    monetaryValue = sumAmounts transactions;
                    recencyScore = calculateRecencyScore recencyDays;
                    frequencyScore = calculateFrequencyScore frequencyCount;
                    monetaryScore = calculateMonetaryScore monetaryValue;
                    rfmScore = recencyScore + frequencyScore + monetaryScore;
                    rfmSegment = determineSegment rfmScore recencyScore frequencyScore monetaryScore
                in Inr \<lparr> rfm_customer_id = customerId, recency_days = recencyDays,
                          recency_score = recencyScore, frequency_count = frequencyCount,
                          frequency_score = frequencyScore,
                          monetary_value = toFixed2 monetaryValue,
                          monetary_score = monetaryScore, rfm_score = rfmScore,
                          rfm_segment = rfmSegment \<rparr>)))"

section \<open>CLV predictor\<close>

record clv_metrics =
  average_order_value :: real
  purchase_frequency :: real
  customer_lifespan_months :: real
  predicted_lifespan_months :: "int option"
  total_spent :: real
  total_orders :: int
  m_days_since_last_purchase :: "int option"

record clv_result =
  clv_customer_id :: int
  clv_predicted :: real
  clv_confidence :: int
  clv_multiplier :: "real option"
  metrics :: clv_metrics

definition calculateCLVConfidence :: "int \<Rightarrow> real \<Rightarrow> int \<Rightarrow> int" where
  "calculateCLVConfidence totalOrders lifespanMonths daysSinceLastPurchase =
     (let confidence = 50;
          confidence = (if totalOrders \<ge> 10 then confidence + 25
                        else if totalOrders \<ge> 5 then confidence + 15
                        else if totalOrders \<ge> 3 then confidence + 5
                        else confidence);
          confidence = (if lifespanMonths \<ge> 12 then confidence + 15
                        else if lifespanMonths \<ge> 6 then confidence + 10
                        else if lifespanMonths \<ge> 3 then confidence + 5
                        else confidence);
          confidence = (if daysSinceLastPurchase \<le> 30 then confidence + 10
                        else if daysSinceLastPurchase \<le> 60 then confidence + 5
                        else if daysSinceLastPurchase > 180 then confidence - 15
                        else confidence)
      in max 0 (min 100 confidence))"

text \<open>\<open>xs.slice(-3)\<close> and \<open>xs.slice(0, -3)\<close>.\<close>

definition sliceLast3 :: "'a list \<Rightarrow> 'a list" where
  "sliceLast3 xs = drop (length xs - 3) xs"

definition sliceButLast3 :: "'a list \<Rightarrow> 'a list" where
  "sliceButLast3 xs = take (length xs - 3) xs"

text \<open>
  The three in-place adjustments of \<open>clvMultiplier\<close>, in the order of the source:
  bonus for recent activity, bonus for high frequency, penalty for declining spend.
\<close>

definition clvRecencyBonus :: "int \<Rightarrow> real \<Rightarrow> real" where
  "clvRecencyBonus daysSinceLastPurchase clvMultiplier =
     (if daysSinceLastPurchase \<le> 30 then clvMultiplier + 3 / 10
      else if daysSinceLastPurchase \<le> 60 then clvMultiplier + 15 / 100
      else clvMultiplier)"

definition clvFrequencyBonus :: "real \<Rightarrow> real \<Rightarrow> real" where
  "clvFrequencyBonus purchaseFrequency clvMultiplier =
     (if purchaseFrequency \<ge> 2 then clvMultiplier + 25 / 100
      else if purchaseFrequency \<ge> 1 then clvMultiplier + 15 / 100
      else clvMultiplier)"

definition clvDeclinePenalty :: "transaction list \<Rightarrow> real \<Rightarrow> real" where
  "clvDeclinePenalty txs clvMultiplier =
     (if int (length txs) \<ge> 3 then
        (let recentOrders = sliceLast3 txs;
             olderOrders = sliceButLast3 txs
         in if length olderOrders > 0 then
              (let recentAvg = sumAmounts recentOrders / of_nat (length recentOrders);
                   olderAvg = sumAmounts olderOrders / of_nat (length olderOrders)
               in if recentAvg < olderAvg * (7 / 10) then clvMultiplier - 2 / 10
                  else clvMultiplier)
            else clvMultiplier)
      else clvMultiplier)"

definition calculateCustomerCLV :: "db \<Rightarrow> int \<Rightarrow> int \<Rightarrow> error + clv_result" where
  "calculateCustomerCLV d now customerId =
     (case findCustomer d customerId of
        None \<Rightarrow> Inl NotFound
      | Some customer \<Rightarrow>
          (case completedAsc d customerId of
             [] \<Rightarrow> Inr \<lparr> clv_customer_id = customerId, clv_predicted = 0, clv_confidence = 0,
                        clv_multiplier = None,
                        metrics = \<lparr> average_order_value = 0, purchase_frequency = 0,
                                    customer_lifespan_months = 0,
                                    predicted_lifespan_months = None, total_spent = 0,
                                    total_orders = 0, m_days_since_last_purchase = None \<rparr> \<rparr>
           | t0 # rest \<Rightarrow>
               (let transactions = t0 # rest;
                    totalSpent = sumAmounts transactions;
                    totalOrders = int (length transactions);
                    averageOrderValue = totalSpent / of_int totalOrders;
                    firstPurchase = t_timestamp t0;
                    lastPurchase = t_timestamp (last transactions);
                    lifespanDays = max 1 ((lastPurchase - firstPurchase) div ms_per_day);
                    lifespanMonths = max 1 (of_int lifespanDays / 30);
                    purchaseFrequency = of_int totalOrders / lifespanMonths;
                    predictedLifespanMonths = 24;
                    basicCLV = averageOrderValue * purchaseFrequency * of_int predictedLifespanMonths;
                    daysSinceLastPurchase = (now - lastPurchase) div ms_per_day;
                    clvMultiplier = clvRecencyBonus daysSinceLastPurchase 1;
                    clvMultiplier = clvFrequencyBonus purchaseFrequency clvMultiplier;
                    clvMultiplier = clvDeclinePenalty transactions clvMultiplier;
                    clvMultiplier = max (1 / 2) (min 2 clvMultiplier);
                    clvPredicted = basicCLV * clvMultiplier;
                    confidenceScore = calculateCLVConfidence totalOrders lifespanMonths daysSinceLastPurchase
                in Inr \<lparr> clv_customer_id = customerId,
                          clv_predicted = toFixed2 clvPredicted,
                          clv_confidence = confidenceScore,
                          clv_multiplier = Some (toFixed2 clvMultiplier),
                          metrics = \<lparr> average_order_value = toFixed2 averageOrderValue,
                                      purchase_frequency = toFixed2 purchaseFrequency,
                                      customer_lifespan_months = toFixed2 lifespanMonths,
                                      predicted_lifespan_months = Some predictedLifespanMonths,
                                      total_spent = toFixed2 totalSpent,
                                      total_orders = totalOrders,
                                      m_days_since_last_purchase = Some daysSinceLastPurchase \<rparr> \<rparr>)))"

section \<open>Churn risk scorer\<close>

record churn_result =
  churn_customer_id :: int
  churn_risk_score :: int
  churn_risk_level :: string
  churn_indicators :: "string list"
  prevention_strategies :: "string list"
  days_since_last_purchase :: "int option"
  total_transactions :: "int option"

text \<open>\<open>[...new Set(xs)]\<close>: the first occurrence of every element, in order.\<close>

fun uniqueInOrder :: "'a list \<Rightarrow> 'a list \<Rightarrow> 'a list" where
  "uniqueInOrder seen [] = []"
| "uniqueInOrder seen (x # xs) =
     (if x \<in> set seen then uniqueInOrder seen xs else x # uniqueInOrder (x # seen) xs)"

definition calculatePurchaseFrequency :: "transaction list \<Rightarrow> real" where
  "calculatePurchaseFrequency txs =
     (if length txs < 2 then 0
      else (let firstDate = t_timestamp (last txs);
                lastDate = t_timestamp (hd txs);
                monthsDiff = max 1 (of_int (lastDate - firstDate) / of_int (ms_per_day * 30))
            in of_nat (length txs) / monthsDiff))"

text \<open>
  \<open>Transaction.count({where: {customer_id, status: 'failed', timestamp: {gte: now - 90 days}}})\<close>.
\<close>

definition countFailedSince :: "db \<Rightarrow> int \<Rightarrow> int \<Rightarrow> int" where
  "countFailedSince d customerId since =
     int (length (filter (\<lambda>t. t_customer_id t = customerId \<and> t_status t = Failed
                              \<and> t_timestamp t \<ge> since) (transactions d)))"

text \<open>
  The scorer keeps three mutable locals (score, indicators, strategies); every factor is a
  step on that triple.
\<close>

type_synonym churn_acc = "int \<times> string list \<times> string list"

definition churnRecency :: "int \<Rightarrow> churn_acc \<Rightarrow> churn_acc" where
  "churnRecency daysSinceLastPurchase acc =
     (case acc of (churnScore, indicators, strategies) \<Rightarrow>
        if daysSinceLastPurchase > 180 then
          (churnScore + 40, indicators @ [''no_purchase_6_months''],
           strategies @ [''win_back_campaign'', ''exclusive_discount''])
        else if daysSinceLastPurchase > 90 then
          (churnScore + 30, indicators @ [''no_purchase_3_months''],
           strategies @ [''re_engagement_email'', ''special_offer''])
        else if daysSinceLastPurchase > 60 then
          (churnScore + 15, indicators @ [''declining_activity''],
           strategies @ [''reminder_email'', ''loyalty_reward''])
        else acc)"

definition churnFrequencyDecline :: "transaction list \<Rightarrow> churn_acc \<Rightarrow> churn_acc" where
  "churnFrequencyDecline allTransactions acc =
     (case acc of (churnScore, indicators, strategies) \<Rightarrow>
        if length allTransactions \<ge> 4 then
          (let recentTransactions = take (length allTransactions div 2) allTransactions;
               olderTransactions = drop (length allTransactions div 2) allTransactions;
               recentFrequency = calculatePurchaseFrequency recentTransactions;
               olderFrequency = calculatePurchaseFrequency olderTransactions
           in if recentFrequency < olderFrequency * (1 / 2) then
                (churnScore + 25, indicators @ [''frequency_decline_50%''],
                 strategies @ [''personalized_recommendations''])
              else if recentFrequency < olderFrequency * (7 / 10) then
                (churnScore + 15, indicators @ [''frequency_decline_30%''], strategies)
              else acc)
        else acc)"

definition churnSpendingDecline :: "transaction list \<Rightarrow> churn_acc \<Rightarrow> churn_acc" where
  "churnSpendingDecline allTransactions acc =
     (case acc of (churnScore, indicators, strategies) \<Rightarrow>
        if length allTransactions \<ge> 4 then
          (let n = length allTransactions;
               recentSpend = sumAmounts (take (n div 2) allTransactions) / of_nat (n div 2);
               olderSpend = sumAmounts (drop (n div 2) allTransactions) / of_nat ((n + 1) div 2)
           in if recentSpend < olderSpend * (6 / 10) then
                (churnScore + 20, indicators @ [''spending_decline_40%''],
                 strategies @ [''vip_incentive'', ''bundle_discount''])
              else if recentSpend < olderSpend * (8 / 10) then
                (churnScore + 10, indicators @ [''spending_decline_20%''], strategies)
              else acc)
        else acc)"

definition churnFailed :: "int \<Rightarrow> churn_acc \<Rightarrow> churn_acc" where
  "churnFailed failedTransactions acc =
     (case acc of (churnScore, indicators, strategies) \<Rightarrow>
        if failedTransactions \<ge> 3 then
          (churnScore + 15, indicators @ [''multiple_failed_transactions''],
           strategies @ [''payment_assistance'', ''customer_support_outreach''])
        else if failedTransactions \<ge> 1 then
          (churnScore + 5, indicators @ [''failed_transaction''], strategies)
        else acc)"

definition churnOrderValue :: "transaction list \<Rightarrow> churn_acc \<Rightarrow> churn_acc" where
  "churnOrderValue allTransactions acc =
     (case acc of (churnScore, indicators, strategies) \<Rightarrow>
        if length allTransactions \<ge> 3 then
          (let amounts = map t_total_amount allTransactions;
               avgAmount = foldl (\<lambda>a b. a + b) 0 amounts / of_nat (length amounts);
               lastAmount = hd amounts
           in if lastAmount < avgAmount * (1 / 2) then
                (churnScore + 10, indicators @ [''low_value_last_order''], strategies)
              else acc)
        else acc)"

text \<open>\<open>customer.loyalty_tier === 'Bronze' || !customer.loyalty_tier\<close>.\<close>

definition churnLoyalty :: "customer \<Rightarrow> churn_acc \<Rightarrow> churn_acc" where
  "churnLoyalty customer acc =
     (case acc of (churnScore, indicators, strategies) \<Rightarrow>
        if c_loyalty_tier customer = Some ''Bronze'' \<or> c_loyalty_tier customer = None
           \<or> c_loyalty_tier customer = Some [] then
          (churnScore + 10, indicators @ [''low_loyalty_tier''],
           strategies @ [''loyalty_upgrade_offer''])
        else acc)"

definition churnLevel :: "int \<Rightarrow> string" where
  "churnLevel churnScore =
     (if churnScore \<ge> 70 then ''critical''
      else if churnScore \<ge> 50 then ''high''
      else if churnScore \<ge> 30 then ''medium''
      else ''low'')"

definition calculateChurnRisk :: "db \<Rightarrow> int \<Rightarrow> int \<Rightarrow> error + churn_result" where
  "calculateChurnRisk d now customerId =
     (case findCustomer d customerId of
        None \<Rightarrow> Inl NotFound
      | Some customer \<Rightarrow>
          (case completedDesc d customerId of
             [] \<Rightarrow> Inr \<lparr> churn_customer_id = customerId, churn_risk_score = 100,
                        churn_risk_level = ''critical'',
                        churn_indicators = [''no_purchase_history''],
                        prevention_strategies = [''welcome_campaign'', ''first_purchase_incentive''],
                        days_since_last_purchase = None, total_transactions = None \<rparr>
           | t0 # rest \<Rightarrow>
               (let allTransactions = t0 # rest;
                    lastPurchase = t_timestamp t0;
                    daysSinceLastPurchase = (now - lastPurchase) div ms_per_day;
                    acc = churnRecency daysSinceLastPurchase (0, [], []);
                    acc = churnFrequencyDecline allTransactions acc;
                    acc = churnSpendingDecline allTransactions acc;
                    failedTransactions = countFailedSince d customerId (now - 90 * ms_per_day);
                    acc = churnFailed failedTransactions acc;
                    acc = churnOrderValue allTransactions acc;
                    acc = churnLoyalty customer acc
                in (case acc of (churnScore, indicators, strategies) \<Rightarrow>
                     (let churnScore = min 100 churnScore;
                          riskLevel = churnLevel churnScore;
                          strategies = (if length indicators = 0
                                        then strategies @ [''maintain_engagement'']
                                        else strategies)
                      in Inr \<lparr> churn_customer_id = customerId, churn_risk_score = churnScore,
                                churn_risk_level = riskLevel, churn_indicators = indicators,
                                prevention_strategies = uniqueInOrder [] strategies,
                                days_since_last_purchase = Some daysSinceLastPurchase,
                                total_transactions = Some (int (length allTransactions)) \<rparr>)))))"

section \<open>The segment rules as the specification words them\<close>

text \<open>
  The specification lists the segments as rules of which the first matching one wins,
  with \<open>Potential\<close> as the fallback. This is that reading, to be compared with
  \<open>determineSegment\<close>.
\<close>

definition segmentRules :: "(string \<times> (int \<Rightarrow> int \<Rightarrow> int \<Rightarrow> int \<Rightarrow> bool)) list" where
  "segmentRules =
     [(''Champions'', \<lambda>total r f m. total \<ge> 13 \<and> r \<ge> 4 \<and> f \<ge> 4 \<and> m \<ge> 4),
      (''Loyal'', \<lambda>total r f m. total \<ge> 10 \<and> f \<ge> 3 \<and> m \<ge> 3),
      (''At Risk'', \<lambda>total r f m. total \<ge> 8 \<and> r \<le> 2 \<and> (f \<ge> 3 \<or> m \<ge> 3)),
      (''Lost'', \<lambda>total r f m. total \<le> 7 \<or> r = 1)]"

definition firstMatchingSegment :: "int \<Rightarrow> int \<Rightarrow> int \<Rightarrow> string" where
  "firstMatchingSegment r f m =
     (let total = r + f + m
      in case find (\<lambda>rule. snd rule total r f m) segmentRules of
           Some rule \<Rightarrow> fst rule
         | None \<Rightarrow> ''Potential'')"

section \<open>Example data\<close>

text \<open>A store with one customer and no completed purchase of theirs.\<close>

definition newCustomerDb :: db where
  "newCustomerDb =
     \<lparr> customers = [\<lparr> c_id = 1, c_loyalty_tier = Some ''bronze'' \<rparr>,
                     \<lparr> c_id = 2, c_loyalty_tier = Some ''gold'' \<rparr>],
       transactions =
         [\<lparr> t_id = 1, t_customer_id = 1, t_product_id = 10, t_total_amount = 25,
            t_status = Failed, t_timestamp = 1000 \<rparr>,
          \<lparr> t_id = 2, t_customer_id = 2, t_product_id = 10, t_total_amount = 25,
            t_status = Completed, t_timestamp = 2000 \<rparr>],
       products = [\<lparr> p_id = 10, p_stock_quantity = 3 \<rparr>],
       customer_analytics = [],
       product_recommendations = [] \<rparr>"

text \<open>
  Twenty-five completed purchases of 480 each, twelve days apart, the latest on day 300.
\<close>

definition championTransactions :: "transaction list" where
  "championTransactions =
     map (\<lambda>i. \<lparr> t_id = int i, t_customer_id = 1, t_product_id = 10, t_total_amount = 480,
                t_status = Completed, t_timestamp = int i * 12 * ms_per_day \<rparr>) [1..<26]"

definition championDb :: db where
  "championDb =
     \<lparr> customers = [\<lparr> c_id = 1, c_loyalty_tier = Some ''gold'' \<rparr>],
       transactions = championTransactions,
       products = [\<lparr> p_id = 10, p_stock_quantity = 3 \<rparr>],
       customer_analytics = [],
       product_recommendations = [] \<rparr>"

section \<open>Batch recomputation\<close>

text \<open>
  The batch runners wrap each customer in \<open>try/catch\<close>. What can throw inside is a
  rejected data-store call, so the model takes the failures as a parameter: which calls of
  the run are rejected. \<open>list_fails\<close> is the initial \<open>Customer.findAll\<close>, \<open>read_fails id\<close>
  the queries made while the customer \<open>id\<close> is scored, \<open>write_fails id\<close> the write of that
  customer's analytics row. \<open>clock id\<close> is the time at which customer \<open>id\<close> is processed.
\<close>

record store_faults =
  list_fails :: bool
  read_fails :: "int \<Rightarrow> bool"
  write_fails :: "int \<Rightarrow> bool"

text \<open>The column defaults of a freshly inserted analytics row.\<close>

definition newAnalyticsRow :: "int \<Rightarrow> int \<Rightarrow> analytics_row" where
  "newAnalyticsRow customerId now =
     \<lparr> a_customer_id = customerId, a_recency_score = 0, a_frequency_score = 0,
       a_monetary_score = 0, a_rfm_score = 0, a_rfm_segment = None, a_recency_days = None,
       a_frequency_count = None, a_monetary_value = None, a_clv_predicted = 0,
       a_clv_confidence = None, a_churn_risk_score = 0, a_churn_risk_level = None,
       a_churn_indicators = None, a_last_calculated = now \<rparr>"

definition setRFMFields :: "rfm_result \<Rightarrow> int \<Rightarrow> analytics_row \<Rightarrow> analytics_row" where
  "setRFMFields rfmData now row =
     row \<lparr> a_recency_score := recency_score rfmData,
           a_frequency_score := frequency_score rfmData,
           a_monetary_score := monetary_score rfmData,
           a_rfm_score := rfm_score rfmData,
           a_rfm_segment := Some (rfm_segment rfmData),
           a_recency_days := Some (recency_days rfmData),
           a_frequency_count := Some (frequency_count rfmData),
           a_monetary_value := Some (monetary_value rfmData),
           a_last_calculated := now \<rparr>"

text \<open>
  \<open>CustomerAnalytics.upsert({customer_id, ...rfm fields, last_calculated})\<close>, keyed by the
  customer: the customer's row is updated in place, or a new row is appended.
\<close>

definition upsertRFM :: "db \<Rightarrow> int \<Rightarrow> int \<Rightarrow> rfm_result \<Rightarrow> db" where
  "upsertRFM d now customerId rfmData =
     (if list_ex (\<lambda>row. a_customer_id row = customerId) (customer_analytics d)
      then d \<lparr> customer_analytics :=
                 map (\<lambda>row. if a_customer_id row = customerId
                            then setRFMFields rfmData now row else row)
                     (customer_analytics d) \<rparr>
      else d \<lparr> customer_analytics :=
                 customer_analytics d
                 @ [setRFMFields rfmData now (newAnalyticsRow customerId now)] \<rparr>)"

text \<open>\<open>results.segments[name]++\<close> on the five-key object literal.\<close>

definition bumpSegment :: "string \<Rightarrow> (string \<times> int) list \<Rightarrow> (string \<times> int) list" where
  "bumpSegment name segs = map (\<lambda>(k, n). if k = name then (k, n + 1) else (k, n)) segs"

record rfm_batch_results =
  rb_total :: int
  rb_processed :: int
  rb_failed :: int
  rb_segments :: "(string \<times> int) list"

text \<open>
  One iteration of the \<open>for\<close> loop of \<open>calculateAllCustomersRFM\<close>. The state is the store,
  the local \<open>processed\<close> and the \<open>results\<close> object.
\<close>

definition rfmBatchStep ::
  "store_faults \<Rightarrow> (int \<Rightarrow> int) \<Rightarrow> customer
     \<Rightarrow> db \<times> int \<times> rfm_batch_results \<Rightarrow> db \<times> int \<times> rfm_batch_results" where
  "rfmBatchStep flt clock customer st =
     (case st of (d, processed, results) \<Rightarrow>
        (case (if read_fails flt (c_id customer) then Inl Upstream
               else calculateCustomerRFM d (clock (c_id customer)) (c_id customer)) of
           Inl e \<Rightarrow> (d, processed, results \<lparr> rb_failed := rb_failed results + 1 \<rparr>)
         | Inr rfmData \<Rightarrow>
             if write_fails flt (c_id customer)
             then (d, processed, results \<lparr> rb_failed := rb_failed results + 1 \<rparr>)
             else (upsertRFM d (clock (c_id customer)) (c_id customer) rfmData,
                   processed + 1,
                   results \<lparr> rb_segments := bumpSegment (rfm_segment rfmData) (rb_segments results) \<rparr>)))"

definition calculateAllCustomersRFM ::
  "store_faults \<Rightarrow> (int \<Rightarrow> int) \<Rightarrow> db \<Rightarrow> db \<times> (error + rfm_batch_results)" where
  "calculateAllCustomersRFM flt clock d =
     (if list_fails flt then (d, Inl Upstream)
      else
        (let customers = customers d;
             results = \<lparr> rb_total = int (length customers), rb_processed = 0, rb_failed = 0,
                         rb_segments = [(''Champions'', 0), (''Loyal'', 0), (''Potential'', 0),
                                        (''At Risk'', 0), (''Lost'', 0)] \<rparr>
         in (case foldl (\<lambda>st customer. rfmBatchStep flt clock customer st)
                    (d, 0, results) customers of
               (d', processed, results) \<Rightarrow>
                 (d', Inr (results \<lparr> rb_processed := processed \<rparr>)))))"

text \<open>
  A JavaScript number that may have left the reals: the quotient \<open>x / 0\<close> is \<open>NaN\<close> for
  \<open>x = 0\<close> and an infinity otherwise.
\<close>

datatype js_number = Finite real | NaN | PosInfinity | NegInfinity

definition jsDivide :: "real \<Rightarrow> real \<Rightarrow> js_number" where
  "jsDivide x y =
     (if y \<noteq> 0 then Finite (x / y)
      else if x = 0 then NaN
      else if x > 0 then PosInfinity
      else NegInfinity)"

text \<open>
  \<open>CustomerAnalytics.update({clv_predicted, clv_confidence}, {where: {customer_id}})\<close>:
  changes the rows of the customer, inserts nothing.
\<close>

definition updateCLV :: "db \<Rightarrow> int \<Rightarrow> clv_result \<Rightarrow> db" where
  "updateCLV d customerId clvData =
     d \<lparr> customer_analytics :=
           map (\<lambda>row. if a_customer_id row = customerId
                      then row \<lparr> a_clv_predicted := clv_predicted clvData,
                                 a_clv_confidence := Some (of_int (clv_confidence clvData)) \<rparr>
                      else row)
               (customer_analytics d) \<rparr>"

record clv_batch_results =
  cb_total :: int
  cb_processed :: int
  cb_failed :: int
  total_predicted_value :: real
  avg_clv :: js_number

definition clvBatchStep ::
  "store_faults \<Rightarrow> (int \<Rightarrow> int) \<Rightarrow> customer
     \<Rightarrow> db \<times> int \<times> clv_batch_results \<Rightarrow> db \<times> int \<times> clv_batch_results" where
  "clvBatchStep flt clock customer st =
     (case st of (d, processed, results) \<Rightarrow>
        (case (if read_fails flt (c_id customer) then Inl Upstream
               else calculateCustomerCLV d (clock (c_id customer)) (c_id customer)) of
           Inl e \<Rightarrow> (d, processed, results \<lparr> cb_failed := cb_failed results + 1 \<rparr>)
         | Inr clvData \<Rightarrow>
             if write_fails flt (c_id customer)
             then (d, processed, results \<lparr> cb_failed := cb_failed results + 1 \<rparr>)
             else (updateCLV d (c_id customer) clvData,
                   processed + 1,
                   results \<lparr> total_predicted_value :=
                               total_predicted_value results + clv_predicted clvData \<rparr>)))"

definition calculateAllCustomersCLV ::
  "store_faults \<Rightarrow> (int \<Rightarrow> int) \<Rightarrow> db \<Rightarrow> db \<times> (error + clv_batch_results)" where
  "calculateAllCustomersCLV flt clock d =
     (if list_fails flt then (d, Inl Upstream)
      else
        (let customers = customers d;
             results = \<lparr> cb_total = int (length customers), cb_processed = 0, cb_failed = 0,
                         total_predicted_value = 0, avg_clv = Finite 0 \<rparr>
         in (case foldl (\<lambda>st customer. clvBatchStep flt clock customer st)
                    (d, 0, results) customers of
               (d', processed, results) \<Rightarrow>
                 (d', Inr (results \<lparr> cb_processed := processed,
                                     avg_clv := jsDivide (total_predicted_value results)
                                                         (of_int processed) \<rparr>)))))"

text \<open>Which customers of a run hit a rejected call.\<close>

definition faulty :: "store_faults \<Rightarrow> customer \<Rightarrow> bool" where
  "faulty flt customer \<longleftrightarrow> read_fails flt (c_id customer) \<or> write_fails flt (c_id customer)"

text \<open>A run over \<open>championDb\<close> extended by a second customer whose write is rejected.\<close>

definition twoCustomerDb :: db where
  "twoCustomerDb = championDb \<lparr> customers := customers championDb
                                  @ [\<lparr> c_id = 2, c_loyalty_tier = Some ''bronze'' \<rparr>] \<rparr>"

definition secondWriteFails :: store_faults where
  "secondWriteFails = \<lparr> list_fails = False, read_fails = (\<lambda>i. False),
                        write_fails = (\<lambda>i. i = 2) \<rparr>"

definition allReadsFail :: store_faults where
  "allReadsFail = \<lparr> list_fails = False, read_fails = (\<lambda>i. True),
                     write_fails = (\<lambda>i. False) \<rparr>"

text \<open>The store holds an analytics row with an RFM segment for the customer.\<close>

definition hasSegmentRow :: "db \<Rightarrow> int \<Rightarrow> bool" where
  "hasSegmentRow d customerId \<longleftrightarrow>
     list_ex (\<lambda>row. a_customer_id row = customerId \<and> a_rfm_segment row \<noteq> None)
       (customer_analytics d)"

definition segmentNames :: "string list" where
  "segmentNames = [''Champions'', ''Loyal'', ''Potential'', ''At Risk'', ''Lost'']"

section \<open>Cache layer\<close>

subsection \<open>The in-process tier\<close>

text \<open>
  \<open>memoryCache\<close> is an instance of the node-cache library (\<open>new NodeCache({stdTTL: 21600,
  useClones: false})\<close>), which is not part of the repository. The model follows the
  library's behaviour for the calls the service makes: \<open>set(key, value, ttl)\<close> stores the
  value with the expiry time \<open>t = now + ttl * 1000\<close>, where the ttl \<open>0\<close> means "no expiry"
  and is stored as \<open>t = 0\<close>; \<open>get(key)\<close> drops an entry with \<open>t \<noteq> 0\<close> and \<open>t < now\<close> and
  returns \<open>undefined\<close> for it.
\<close>

record 'v mem_entry =
  me_t :: real
  me_v :: 'v

type_synonym 'v memory_cache = "string \<Rightarrow> 'v mem_entry option"

definition memoryCache_set ::
  "'v memory_cache \<Rightarrow> string \<Rightarrow> 'v \<Rightarrow> real \<Rightarrow> int \<Rightarrow> 'v memory_cache" where
  "memoryCache_set m key val ttl now =
     m(key \<mapsto> \<lparr> me_t = (if ttl = 0 then 0 else of_int now + ttl * 1000), me_v = val \<rparr>)"

definition memoryCache_get ::
  "'v memory_cache \<Rightarrow> string \<Rightarrow> int \<Rightarrow> 'v memory_cache \<times> 'v option" where
  "memoryCache_get m key now =
     (case m key of
        None \<Rightarrow> (m, None)
      | Some e \<Rightarrow>
          if me_t e \<noteq> 0 \<and> me_t e < of_int now then (m(key := None), None)
          else (m, Some (me_v e)))"

definition memoryCache_del :: "'v memory_cache \<Rightarrow> string \<Rightarrow> 'v memory_cache" where
  "memoryCache_del m key = m(key := None)"

definition memoryCache_flushAll :: "'v memory_cache" where
  "memoryCache_flushAll = (\<lambda>key. None)"

subsection \<open>The durable tier and the service\<close>

record 'v cache_row =
  cache_key :: string
  cache_value :: 'v
  cache_type :: string
  expires_at :: int

record 'v cache_state =
  memoryCache :: "'v memory_cache"
  analyticsCache :: "'v cache_row list"

text \<open>\<open>new Date(x)\<close> for a finite number: the time value is \<open>x\<close> truncated towards zero.\<close>

definition newDate :: "real \<Rightarrow> int" where
  "newDate x = (if x \<ge> 0 then \<lfloor>x\<rfloor> else \<lceil>x\<rceil>)"

text \<open>\<open>AnalyticsCache.upsert(row)\<close>, keyed by the unique \<open>cache_key\<close>.\<close>

definition upsertCacheRow :: "'v cache_row list \<Rightarrow> 'v cache_row \<Rightarrow> 'v cache_row list" where
  "upsertCacheRow rows row =
     (if list_ex (\<lambda>r. cache_key r = cache_key row) rows
      then map (\<lambda>r. if cache_key r = cache_key row then row else r) rows
      else rows @ [row])"

text \<open>
  In the service functions \<open>now\<close> is the clock reading of the call and \<open>durable_ok\<close> tells
  whether the data store answers; a rejected store call is caught by the function's
  \<open>try/catch\<close>. The functions return the new cache state and their result; \<open>null\<close> is
  \<open>None\<close>.
\<close>

definition cacheService_get ::
  "'v cache_state \<Rightarrow> string \<Rightarrow> int \<Rightarrow> bool \<Rightarrow> 'v cache_state \<times> 'v option" where
  "cacheService_get cs key now durable_ok =
     (case memoryCache_get (memoryCache cs) key now of
        (m, Some memValue) \<Rightarrow> (cs \<lparr> memoryCache := m \<rparr>, Some memValue)
      | (m, None) \<Rightarrow>
          if \<not> durable_ok then (cs \<lparr> memoryCache := m \<rparr>, None)
          else
            (case find (\<lambda>r. cache_key r = key \<and> expires_at r \<ge> now) (analyticsCache cs) of
               Some dbCache \<Rightarrow>
                 (let ttl = (expires_at dbCache - now) div 1000
                  in (cs \<lparr> memoryCache :=
                             memoryCache_set m key (cache_value dbCache) (of_int ttl) now \<rparr>,
                      Some (cache_value dbCache)))
             | None \<Rightarrow> (cs \<lparr> memoryCache := m \<rparr>, None)))"

definition cacheService_set ::
  "'v cache_state \<Rightarrow> string \<Rightarrow> 'v \<Rightarrow> real \<Rightarrow> string \<Rightarrow> int \<Rightarrow> bool \<Rightarrow> 'v cache_state \<times> bool" where
  "cacheService_set cs key val ttlHours cacheType now durable_ok =
     (let ttlSeconds = ttlHours * 3600;
          expiresAt = newDate (of_int now + ttlHours * 3600 * 1000);
          m = memoryCache_set (memoryCache cs) key val ttlSeconds now
      in if durable_ok
         then (cs \<lparr> memoryCache := m,
                    analyticsCache :=
                      upsertCacheRow (analyticsCache cs)
                        \<lparr> cache_key = key, cache_value = val, cache_type = cacheType,
                          expires_at = expiresAt \<rparr> \<rparr>, True)
         else (cs \<lparr> memoryCache := m \<rparr>, False))"

definition cacheService_del :: "'v cache_state \<Rightarrow> string \<Rightarrow> bool \<Rightarrow> 'v cache_state \<times> bool" where
  "cacheService_del cs key durable_ok =
     (let m = memoryCache_del (memoryCache cs) key
      in if durable_ok
         then (cs \<lparr> memoryCache := m,
                    analyticsCache := filter (\<lambda>r. cache_key r \<noteq> key) (analyticsCache cs) \<rparr>, True)
         else (cs \<lparr> memoryCache := m \<rparr>, False))"

text \<open>
  \<open>clear(cacheType)\<close>: the in-process tier is flushed as a whole, the durable rows are
  deleted by type when a type is given.
\<close>

definition cacheService_clear ::
  "'v cache_state \<Rightarrow> string option \<Rightarrow> bool \<Rightarrow> 'v cache_state \<times> bool" where
  "cacheService_clear cs cacheType durable_ok =
     (let m = memoryCache_flushAll
      in if durable_ok
         then (cs \<lparr> memoryCache := m,
                    analyticsCache :=
                      (case cacheType of
                         Some ty \<Rightarrow> filter (\<lambda>r. cache_type r \<noteq> ty) (analyticsCache cs)
                       | None \<Rightarrow> []) \<rparr>, True)
         else (cs \<lparr> memoryCache := m \<rparr>, False))"

definition cleanExpired :: "'v cache_state \<Rightarrow> int \<Rightarrow> bool \<Rightarrow> 'v cache_state \<times> int" where
  "cleanExpired cs now durable_ok =
     (if durable_ok
      then (cs \<lparr> analyticsCache := filter (\<lambda>r. \<not> expires_at r < now) (analyticsCache cs) \<rparr>,
            int (length (filter (\<lambda>r. expires_at r < now) (analyticsCache cs))))
      else (cs, 0))"

definition emptyCache :: "'v cache_state" where
  "emptyCache = \<lparr> memoryCache = memoryCache_flushAll, analyticsCache = [] \<rparr>"

text \<open>
  A six-hour entry written at time 0, an administrator clearing the entries of another
  type after one hour, a read half a second before the entry expires and a read a day
  after it has expired.
\<close>

definition overviewKey :: string where
  "overviewKey = ''segments:overview''"

definition staleReadTrace :: "string cache_state \<times> string option \<times> string option" where
  "staleReadTrace =
     (let (s1, ok1) = cacheService_set emptyCache overviewKey ''payload'' 6 ''segments'' 0 True;
          (s2, ok2) = cacheService_clear s1 (Some ''rfm'') True;
          (s3, r3) = cacheService_get s2 overviewKey (6 * 3600 * 1000 - 500) True;
          (s4, r4) = cacheService_get s3 overviewKey (6 * 3600 * 1000 + 24 * 3600 * 1000) True
      in (s4, r3, r4))"

section \<open>Recommendation engine\<close>

text \<open>
  The engine is modelled on a data store that answers every call; the \<open>catch\<close> branches
  that turn a rejected query into an empty list are not reached then, except where a plain
  JavaScript error would reach them (noted at the place).
\<close>

record candidate =
  cand_product :: product
  cand_score :: real
  cand_type :: string
  cand_reason :: string

text \<open>
  An entry of the returned array. A freshly combined entry has \<open>recommendation_types\<close> and
  \<open>reasons\<close>; an entry rebuilt from the persisted rows has \<open>recommendation_type\<close> and
  \<open>reason\<close> and the product row joined to it (absent when the row is gone).
\<close>

record recommendation =
  rec_product :: "product option"
  recommendation_score :: real
  recommendation_types :: "string list option"
  reasons :: "string list option"
  recommendation_type :: "string option"
  reason :: "string option"

record weights =
  w_affinity :: real
  w_collaborative :: real
  w_segment :: real

subsection \<open>The grouped purchase-count query\<close>

text \<open>
  \<open>SELECT product_id, COUNT(product_id) ... GROUP BY product_id ORDER BY count DESC LIMIT n\<close>
  over the selected transactions. Groups with equal counts are left in the order of their
  first row (the source leaves their order to the database). A negative \<open>LIMIT\<close> is
  rejected by the database; the callers catch that and return the empty list.
\<close>

definition groupCount :: "int list \<Rightarrow> (int \<times> nat) list" where
  "groupCount ids = map (\<lambda>k. (k, count_list ids k)) (uniqueInOrder [] ids)"

definition topCounts :: "transaction list \<Rightarrow> int \<Rightarrow> (int \<times> nat) list" where
  "topCounts txs limit =
     take (nat limit) (sort_key (\<lambda>row. - int (snd row)) (groupCount (map t_product_id txs)))"

text \<open>\<open>product_id: {[Op.notIn]: ids}\<close>; with an empty list the condition is dropped.\<close>

definition notIn :: "int \<Rightarrow> int list \<Rightarrow> bool" where
  "notIn x ids \<longleftrightarrow> x \<notin> set ids"

text \<open>\<open>Product.findAll({where: {id: {[Op.in]: productIds}, stock_quantity: {[Op.gt]: 0}}})\<close>.\<close>

definition inStockProducts :: "db \<Rightarrow> int list \<Rightarrow> product list" where
  "inStockProducts d productIds =
     filter (\<lambda>p. p_id p \<in> set productIds \<and> p_stock_quantity p > 0) (products d)"

text \<open>
  \<open>products.map(product => {const row = rows.find(r => r.product_id === product.id);
  return {product, score: parseFloat(row.count) || 1, type, reason}})\<close>.
  A product without a row would raise a TypeError, which the enclosing \<open>catch\<close> turns into
  the empty list.
\<close>

definition countOf :: "(int \<times> nat) list \<Rightarrow> int \<Rightarrow> nat option" where
  "countOf rows productId = map_option snd (find (\<lambda>row. fst row = productId) rows)"

definition toCandidates ::
  "(int \<times> nat) list \<Rightarrow> product list \<Rightarrow> string \<Rightarrow> string \<Rightarrow> candidate list" where
  "toCandidates rows prods ty why =
     (if list_all (\<lambda>p. countOf rows (p_id p) \<noteq> None) prods
      then map (\<lambda>p. \<lparr> cand_product = p,
                       cand_score = (let c = the (countOf rows (p_id p))
                                     in if c = 0 then 1 else real c),
                       cand_type = ty, cand_reason = why \<rparr>) prods
      else [])"

subsection \<open>The three sub-algorithms\<close>

text \<open>
  The customers who completed a purchase of one of the given products
  (\<open>SELECT DISTINCT customer_id FROM transactions WHERE product_id IN (...) AND status =
  'completed'\<close>).
\<close>

definition coBuyers :: "db \<Rightarrow> int list \<Rightarrow> int list" where
  "coBuyers d purchasedProductIds =
     uniqueInOrder []
       (map t_customer_id
          (filter (\<lambda>t. t_product_id t \<in> set purchasedProductIds \<and> t_status t = Completed)
             (transactions d)))"

definition affinityRows :: "db \<Rightarrow> int list \<Rightarrow> transaction list" where
  "affinityRows d purchasedProductIds =
     filter (\<lambda>t. t_status t = Completed
                \<and> t_customer_id t \<in> set (coBuyers d purchasedProductIds)
                \<and> notIn (t_product_id t) purchasedProductIds)
       (transactions d)"

definition getProductAffinityRecommendations :: "db \<Rightarrow> int list \<Rightarrow> int \<Rightarrow> candidate list" where
  "getProductAffinityRecommendations d purchasedProductIds limit =
     (if length purchasedProductIds = 0 then []
      else if limit < 0 then []
      else
        (let affinityProducts = topCounts (affinityRows d purchasedProductIds) limit;
             productIds = map fst affinityProducts;
             products = inStockProducts d productIds
         in toCandidates affinityProducts products ''affinity''
              ''Frequently bought together with your previous purchases''))"

text \<open>\<open>CustomerAnalytics.findOne({where: {customer_id}})\<close>.\<close>

definition findAnalytics :: "db \<Rightarrow> int \<Rightarrow> analytics_row option" where
  "findAnalytics d customerId =
     find (\<lambda>row. a_customer_id row = customerId) (customer_analytics d)"

definition getCollaborativeFilteringRecommendations ::
  "db \<Rightarrow> int \<Rightarrow> int list \<Rightarrow> int \<Rightarrow> candidate list" where
  "getCollaborativeFilteringRecommendations d customerId purchasedProductIds limit =
     (case findAnalytics d customerId of
        None \<Rightarrow> []
      | Some analytics \<Rightarrow>
          (case a_rfm_segment analytics of
             None \<Rightarrow> []
           | Some seg \<Rightarrow>
               if seg = [] then []
               else
                 (let similarCustomers =
                        take 50 (filter (\<lambda>row. a_rfm_segment row = Some seg
                                              \<and> a_customer_id row \<noteq> customerId)
                                   (customer_analytics d));
                      similarCustomerIds = map a_customer_id similarCustomers
                  in if length similarCustomerIds = 0 then []
                     else if limit < 0 then []
                     else
                       (let popularProducts =
                              topCounts
                                (filter (\<lambda>t. t_customer_id t \<in> set similarCustomerIds
                                            \<and> notIn (t_product_id t) purchasedProductIds
                                            \<and> t_status t = Completed)
                                   (transactions d)) limit;
                            productIds = map fst popularProducts;
                            products = inStockProducts d productIds
                        in toCandidates popularProducts products ''collaborative''
                             (''Popular among '' @ seg @ '' customers like you'')))))"

text \<open>
  The segment of the analytics row as it is spliced into the reason text
  (\<open>`Top choice for ${analytics.rfm_segment} segment`\<close>).
\<close>

definition segmentText :: "string option \<Rightarrow> string" where
  "segmentText seg = (case seg of None \<Rightarrow> ''null'' | Some s \<Rightarrow> s)"

definition getSegmentBasedRecommendations ::
  "db \<Rightarrow> int \<Rightarrow> int list \<Rightarrow> int \<Rightarrow> candidate list" where
  "getSegmentBasedRecommendations d customerId purchasedProductIds limit =
     (case findAnalytics d customerId of
        None \<Rightarrow> []
      | Some analytics \<Rightarrow>
          (let segmentCustomers =
                 filter (\<lambda>row. a_rfm_segment row = a_rfm_segment analytics)
                   (customer_analytics d);
               segmentCustomerIds = map a_customer_id segmentCustomers
           in if limit < 0 then []
              else
                (let topProducts =
                       topCounts
                         (filter (\<lambda>t. t_customer_id t \<in> set segmentCustomerIds
                                     \<and> notIn (t_product_id t) purchasedProductIds
                                     \<and> t_status t = Completed)
                            (transactions d)) limit;
                     productIds = map fst topProducts;
                     products = inStockProducts d productIds
                 in toCandidates topProducts products ''segment''
                      (''Top choice for '' @ segmentText (a_rfm_segment analytics) @ '' segment''))))"

subsection \<open>Combining\<close>

definition normalizeScore :: "real \<Rightarrow> candidate list \<Rightarrow> real" where
  "normalizeScore score allScores =
     (if length allScores = 0 then 0
      else
        (let scores = map cand_score allScores;
             maxScore = Max (set scores);
             minScore = Min (set scores)
         in if maxScore = minScore then 1
            else (score - minScore) / (maxScore - minScore)))"

record score_entry =
  se_product :: product
  totalScore :: real
  se_reasons :: "string list"
  se_types :: "string list"

text \<open>
  The JavaScript \<open>Map\<close> keyed by product id, in insertion order: \<open>set\<close> on a present key
  replaces the value in place, on a new key appends.
\<close>

type_synonym score_map = "(int \<times> score_entry) list"

definition mapHas :: "score_map \<Rightarrow> int \<Rightarrow> bool" where
  "mapHas m key \<longleftrightarrow> key \<in> fst ` set m"

definition mapSet :: "score_map \<Rightarrow> int \<Rightarrow> score_entry \<Rightarrow> score_map" where
  "mapSet m key e =
     (if mapHas m key then map (\<lambda>(k, v). if k = key then (k, e) else (k, v)) m
      else m @ [(key, e)])"

definition mapModify :: "score_map \<Rightarrow> int \<Rightarrow> (score_entry \<Rightarrow> score_entry) \<Rightarrow> score_map" where
  "mapModify m key f = map (\<lambda>(k, v). if k = key then (k, f v) else (k, v)) m"

definition firstEntry :: "real \<Rightarrow> candidate list \<Rightarrow> candidate \<Rightarrow> score_entry" where
  "firstEntry weight source rec =
     \<lparr> se_product = cand_product rec,
       totalScore = normalizeScore (cand_score rec) source * weight,
       se_reasons = [cand_reason rec],
       se_types = [cand_type rec] \<rparr>"

definition addEntry :: "real \<Rightarrow> candidate list \<Rightarrow> candidate \<Rightarrow> score_entry \<Rightarrow> score_entry" where
  "addEntry weight source rec existing =
     existing \<lparr> totalScore := totalScore existing + normalizeScore (cand_score rec) source * weight,
                se_reasons := se_reasons existing @ [cand_reason rec],
                se_types := se_types existing @ [cand_type rec] \<rparr>"

text \<open>The body of the first \<open>forEach\<close> (always \<open>set\<close>) and of the two later ones.\<close>

definition putAffinity :: "real \<Rightarrow> candidate list \<Rightarrow> score_map \<Rightarrow> candidate \<Rightarrow> score_map" where
  "putAffinity weight source m rec =
     mapSet m (p_id (cand_product rec)) (firstEntry weight source rec)"

definition putOther :: "real \<Rightarrow> candidate list \<Rightarrow> score_map \<Rightarrow> candidate \<Rightarrow> score_map" where
  "putOther weight source m rec =
     (let key = p_id (cand_product rec)
      in if mapHas m key then mapModify m key (addEntry weight source rec)
         else mapSet m key (firstEntry weight source rec))"

definition productScores ::
  "candidate list \<Rightarrow> candidate list \<Rightarrow> candidate list \<Rightarrow> weights \<Rightarrow> score_map" where
  "productScores affinity collaborative segment ws =
     (let m = foldl (putAffinity (w_affinity ws) affinity) [] affinity;
          m = foldl (putOther (w_collaborative ws) collaborative) m collaborative;
          m = foldl (putOther (w_segment ws) segment) m segment
      in m)"

definition toRecommendation :: "score_entry \<Rightarrow> recommendation" where
  "toRecommendation item =
     \<lparr> rec_product = Some (se_product item),
       recommendation_score = toFixed2 (totalScore item * 100),
       recommendation_types = Some (uniqueInOrder [] (se_types item)),
       reasons = Some (se_reasons item),
       recommendation_type = None,
       reason = None \<rparr>"

definition combineRecommendations ::
  "candidate list \<Rightarrow> candidate list \<Rightarrow> candidate list \<Rightarrow> weights \<Rightarrow> recommendation list" where
  "combineRecommendations affinity collaborative segment ws =
     sort_key (\<lambda>r. - recommendation_score r)
       (map (\<lambda>kv. toRecommendation (snd kv)) (productScores affinity collaborative segment ws))"

definition engineWeights :: weights where
  "engineWeights = \<lparr> w_affinity = 4 / 10, w_collaborative = 3 / 10, w_segment = 3 / 10 \<rparr>"

subsection \<open>Persisted rows and the engine\<close>

text \<open>\<open>`customer:${customerId}:${type}`\<close>, with the decimal rendering of the id.\<close>

fun showNat :: "nat \<Rightarrow> string" where
  "showNat n =
     (if n < 10 then [''0123456789'' ! n]
      else showNat (n div 10) @ [''0123456789'' ! (n mod 10)])"

declare showNat.simps [simp del]

definition showInt :: "int \<Rightarrow> string" where
  "showInt i = (if i < 0 then ''-'' @ showNat (nat (- i)) else showNat (nat i))"

definition generateCustomerKey :: "int \<Rightarrow> string \<Rightarrow> string" where
  "generateCustomerKey customerId kind = ''customer:'' @ showInt customerId @ '':'' @ kind"

definition twelveHours :: int where
  "twelveHours = 12 * 60 * 60 * 1000"

text \<open>\<open>xs.slice(0, n)\<close>; a negative \<open>n\<close> counts from the end.\<close>

definition sliceTo :: "'a list \<Rightarrow> int \<Rightarrow> 'a list" where
  "sliceTo xs n = (if n \<ge> 0 then take (nat n) xs else take (length xs - nat (- n)) xs)"

text \<open>\<open>xs.join(',')\<close>.\<close>

fun joinComma :: "string list \<Rightarrow> string" where
  "joinComma [] = []"
| "joinComma [x] = x"
| "joinComma (x # y # ys) = x @ '','' @ joinComma (y # ys)"

definition getCachedRecommendations :: "db \<Rightarrow> int \<Rightarrow> int \<Rightarrow> recommendation list option" where
  "getCachedRecommendations d customerId now =
     (let twelveHoursAgo = now - twelveHours;
          cached = sort_key (\<lambda>row. - r_recommendation_score row)
                     (filter (\<lambda>row. r_customer_id row = customerId
                                   \<and> r_generated_at row \<ge> twelveHoursAgo)
                        (product_recommendations d))
      in if length cached > 0
         then Some (map (\<lambda>row. \<lparr> rec_product = find (\<lambda>p. p_id p = r_product_id row) (products d),
                                   recommendation_score = r_recommendation_score row,
                                   recommendation_types = None,
                                   reasons = None,
                                   recommendation_type = Some (r_recommendation_type row),
                                   reason = r_reason row \<rparr>) cached)
         else None)"

text \<open>
  \<open>cacheRecommendations\<close>: the customer's rows are destroyed, then the new rows are built
  and inserted. Building a row reads \<open>rec.product.id\<close>; on an entry without product that is
  a TypeError, which the function's \<open>catch\<close> swallows after the rows are already gone.
\<close>

definition cacheRecommendations :: "db \<Rightarrow> int \<Rightarrow> recommendation list \<Rightarrow> int \<Rightarrow> db" where
  "cacheRecommendations d customerId recommendations now =
     (let kept = filter (\<lambda>row. r_customer_id row \<noteq> customerId) (product_recommendations d);
          expiresAt = now + twelveHours
      in if list_all (\<lambda>rec. rec_product rec \<noteq> None) recommendations
         then d \<lparr> product_recommendations :=
                    kept @ map (\<lambda>rec. \<lparr> r_customer_id = customerId,
                                         r_product_id = p_id (the (rec_product rec)),
                                         r_recommendation_score = recommendation_score rec,
                                         r_recommendation_type =
                                           (case recommendation_types rec of
                                              Some tys \<Rightarrow> joinComma tys
                                            | None \<Rightarrow> ''hybrid''),
                                         r_reason =
                                           (case reasons rec of
                                              Some (why # others) \<Rightarrow> Some why
                                            | Some [] \<Rightarrow> None
                                            | None \<Rightarrow> Some ''Recommended for you''),
                                         r_generated_at = now,
                                         r_expires_at = expiresAt \<rparr>) recommendations \<rparr>
         else d \<lparr> product_recommendations := kept \<rparr>)"

text \<open>
  The full recompute of \<open>generatePersonalizedRecommendations\<close>: the purchased product ids,
  the three sub-algorithms with \<open>limit * 2\<close>, the combiner and the cut to \<open>limit\<close>.
\<close>

definition purchasedProductIdsOf :: "db \<Rightarrow> int \<Rightarrow> int list" where
  "purchasedProductIdsOf d customerId = map t_product_id (completedOf d customerId)"

definition recomputeRecommendations :: "db \<Rightarrow> int \<Rightarrow> int \<Rightarrow> recommendation list" where
  "recomputeRecommendations d customerId limit =
     (let purchasedProductIds = purchasedProductIdsOf d customerId;
          affinityRecommendations =
            getProductAffinityRecommendations d purchasedProductIds (limit * 2);
          collaborativeRecommendations =
            getCollaborativeFilteringRecommendations d customerId purchasedProductIds (limit * 2);
          segmentRecommendations =
            getSegmentBasedRecommendations d customerId purchasedProductIds (limit * 2);
          combinedRecommendations =
            combineRecommendations affinityRecommendations collaborativeRecommendations
              segmentRecommendations engineWeights
      in sliceTo combinedRecommendations limit)"

type_synonym engine_state = "db \<times> recommendation list cache_state"

definition generatePersonalizedRecommendations ::
  "engine_state \<Rightarrow> int \<Rightarrow> int \<Rightarrow> int \<Rightarrow> engine_state \<times> (error + recommendation list)" where
  "generatePersonalizedRecommendations st now customerId limit =
     (case st of (d, cs) \<Rightarrow>
        (case findCustomer d customerId of
           None \<Rightarrow> (st, Inl NotFound)
         | Some customer \<Rightarrow>
             (let cacheKey = generateCustomerKey customerId ''recommendations'' in
              case cacheService_get cs cacheKey now True of
                (cs, Some (c # cached)) \<Rightarrow> ((d, cs), Inr (sliceTo (c # cached) limit))
              | (cs, _) \<Rightarrow>
                  (case getCachedRecommendations d customerId now of
                     Some (c # cachedRecommendations) \<Rightarrow>
                       (let result = sliceTo (c # cachedRecommendations) limit;
                            cs = fst (cacheService_set cs cacheKey result 12 ''recommendations'' now True)
                        in ((d, cs), Inr result))
                   | _ \<Rightarrow>
                       (let topRecommendations = recomputeRecommendations d customerId limit;
                            d = cacheRecommendations d customerId topRecommendations now;
                            cs = fst (cacheService_set cs cacheKey topRecommendations 12
                                        ''recommendations'' now True)
                        in ((d, cs), Inr topRecommendations))))))"

subsection \<open>The claims' words about the engine\<close>

text \<open>
  An entry does not refer to a product the customer bought in a completed transaction, nor
  to a product whose stock in the store is zero.
\<close>

definition recommendationOk :: "db \<Rightarrow> int \<Rightarrow> recommendation \<Rightarrow> bool" where
  "recommendationOk d customerId rec =
     (case rec_product rec of
        None \<Rightarrow> True
      | Some p \<Rightarrow>
          p_id p \<notin> set (purchasedProductIdsOf d customerId)
          \<and> (case find (\<lambda>q. p_id q = p_id p) (products d) of
                None \<Rightarrow> True
              | Some q \<Rightarrow> p_stock_quantity q \<noteq> 0))"

text \<open>
  The co-purchasers of a candidate as the specification counts them: the distinct customers
  who bought one of the given products and also bought the candidate.
\<close>

definition coPurchasers :: "db \<Rightarrow> int list \<Rightarrow> int \<Rightarrow> int list" where
  "coPurchasers d purchasedProductIds productId =
     filter (\<lambda>c. list_ex (\<lambda>t. t_customer_id t = c \<and> t_product_id t = productId
                             \<and> t_status t = Completed) (transactions d))
       (coBuyers d purchasedProductIds)"

text \<open>The score a product has in the combiner's map; a product without entry has none.\<close>

definition combinedScore :: "score_map \<Rightarrow> int \<Rightarrow> real" where
  "combinedScore m productId =
     (case map_of m productId of None \<Rightarrow> 0 | Some e \<Rightarrow> totalScore e)"

definition productIdsOf :: "candidate list \<Rightarrow> int set" where
  "productIdsOf xs = (\<lambda>rec. p_id (cand_product rec)) ` set xs"

subsection \<open>A small shop\<close>

text \<open>
  Customer 1 bought product 10; customer 2 bought product 10 once and product 20 twice.
  Product 20 has one piece left.
\<close>

definition shopDb :: db where
  "shopDb =
     \<lparr> customers = [\<lparr> c_id = 1, c_loyalty_tier = Some ''bronze'' \<rparr>,
                     \<lparr> c_id = 2, c_loyalty_tier = Some ''silver'' \<rparr>],
       transactions =
         [\<lparr> t_id = 1, t_customer_id = 1, t_product_id = 10, t_total_amount = 30,
            t_status = Completed, t_timestamp = 1000 \<rparr>,
          \<lparr> t_id = 2, t_customer_id = 2, t_product_id = 10, t_total_amount = 30,
            t_status = Completed, t_timestamp = 2000 \<rparr>,
          \<lparr> t_id = 3, t_customer_id = 2, t_product_id = 20, t_total_amount = 45,
            t_status = Completed, t_timestamp = 3000 \<rparr>,
          \<lparr> t_id = 4, t_customer_id = 2, t_product_id = 20, t_total_amount = 45,
            t_status = Completed, t_timestamp = 4000 \<rparr>],
       products = [\<lparr> p_id = 10, p_stock_quantity = 5 \<rparr>, \<lparr> p_id = 20, p_stock_quantity = 1 \<rparr>],
       customer_analytics = [],
       product_recommendations = [] \<rparr>"

text \<open>The recommendations for customer 1 are computed at time 5000.\<close>

definition shopAfterFirstCall :: engine_state where
  "shopAfterFirstCall = fst (generatePersonalizedRecommendations (shopDb, emptyCache) 5000 1 5)"

text \<open>
  Then the order flow records that customer 1 buys the last piece of product 20. One hour
  after the first call the recommendations are asked for again.
\<close>

definition recordLastPiece :: "db \<Rightarrow> db" where
  "recordLastPiece d =
     d \<lparr> transactions := transactions d
            @ [\<lparr> t_id = 5, t_customer_id = 1, t_product_id = 20, t_total_amount = 45,
                 t_status = Completed, t_timestamp = 6000 \<rparr>],
         products := [\<lparr> p_id = 10, p_stock_quantity = 5 \<rparr>, \<lparr> p_id = 20, p_stock_quantity = 0 \<rparr>] \<rparr>"

definition shopAfterPurchase :: engine_state where
  "shopAfterPurchase = (recordLastPiece (fst shopAfterFirstCall), snd shopAfterFirstCall)"

text \<open>
  Or, instead, the only purchase of customer 1 is refunded (\<open>updateTransactionStatus\<close>), so
  that the customer has no completed purchase left.
\<close>

definition refundFirst :: "db \<Rightarrow> db" where
  "refundFirst d =
     d \<lparr> transactions :=
           map (\<lambda>t. if t_id t = 1 then t \<lparr> t_status := Refunded \<rparr> else t) (transactions d) \<rparr>"

definition shopAfterRefund :: engine_state where
  "shopAfterRefund = (refundFirst (fst shopAfterFirstCall), snd shopAfterFirstCall)"

text \<open>The entry for product 20 as the first call computes it.\<close>

definition entry20 :: recommendation where
  "entry20 =
     \<lparr> rec_product = Some \<lparr> p_id = 20, p_stock_quantity = 1 \<rparr>,
       recommendation_score = 40,
       recommendation_types = Some [''affinity''],
       reasons = Some [''Frequently bought together with your previous purchases''],
       recommendation_type = None,
       reason = None \<rparr>"

text \<open>The affinity candidate for product 20.\<close>

definition candidate20 :: candidate where
  "candidate20 =
     \<lparr> cand_product = \<lparr> p_id = 20, p_stock_quantity = 1 \<rparr>, cand_score = 2,
       cand_type = ''affinity'',
       cand_reason = ''Frequently bought together with your previous purchases'' \<rparr>"

text \<open>
  A store in which two customers have analytics rows without segment (rows as a plain
  insert with the column defaults would leave them); customer 4 bought product 10.
\<close>

definition unsegmentedDb :: db where
  "unsegmentedDb =
     \<lparr> customers = [\<lparr> c_id = 3, c_loyalty_tier = Some ''bronze'' \<rparr>,
                     \<lparr> c_id = 4, c_loyalty_tier = Some ''bronze'' \<rparr>],
       transactions =
         [\<lparr> t_id = 1, t_customer_id = 4, t_product_id = 10, t_total_amount = 30,
            t_status = Completed, t_timestamp = 1000 \<rparr>],
       products = [\<lparr> p_id = 10, p_stock_quantity = 5 \<rparr>],
       customer_analytics = [newAnalyticsRow 3 0, newAnalyticsRow 4 0],
       product_recommendations = [] \<rparr>"

text \<open>
  What the \<open>forEach\<close> over a source list adds to the score of one product: the weighted
  normalized scores of the list's entries for that product.
\<close>

definition contribution :: "real \<Rightarrow> candidate list \<Rightarrow> candidate list \<Rightarrow> int \<Rightarrow> real" where
  "contribution weight source xs productId =
     sum_list (map (\<lambda>rec. normalizeScore (cand_score rec) source * weight)
                 (filter (\<lambda>rec. p_id (cand_product rec) = productId) xs))"

text \<open>Every key of the map is the id of the product stored under it, and no key repeats.\<close>

definition keyed :: "score_map \<Rightarrow> bool" where
  "keyed m \<longleftrightarrow> distinct (map fst m) \<and> list_all (\<lambda>kv. fst kv = p_id (se_product (snd kv))) m"

text \<open>Source lists for the combiner: product 20 in all three lists, and in the first only.\<close>

definition cand :: "int \<Rightarrow> real \<Rightarrow> string \<Rightarrow> candidate" where
  "cand productId score kind =
     \<lparr> cand_product = \<lparr> p_id = productId, p_stock_quantity = 1 \<rparr>, cand_score = score,
       cand_type = kind, cand_reason = kind \<rparr>"

definition affinityList :: "candidate list" where
  "affinityList = [cand 20 2 ''affinity'', cand 30 1 ''affinity'']"

definition collaborativeList :: "candidate list" where
  "collaborativeList = [cand 30 5 ''collaborative'', cand 20 3 ''collaborative'']"

definition segmentList :: "candidate list" where
  "segmentList = [cand 20 4 ''segment'']"

section \<open>Auxiliary facts about the queries\<close>

lemma sumAmounts_acc:
  "foldl (\<lambda>sum t. sum + t_total_amount t) a txs = a + sum_list (map t_total_amount txs)"
  by (induction txs arbitrary: a) simp_all

lemma sumAmounts_sum_list: "sumAmounts txs = sum_list (map t_total_amount txs)"
  by (simp add: sumAmounts_def sumAmounts_acc)

lemma sum_list_sort_key:
  "sum_list (map f (sort_key k xs)) = sum_list (map (f :: 'a \<Rightarrow> real) xs)"
proof -
  have "mset (map f (sort_key k xs)) = mset (map f xs)"
    by simp
  then show ?thesis
    by (metis sum_mset_sum_list)
qed

lemma completedDesc_Nil: "completedDesc d c = [] \<longleftrightarrow> completedOf d c = []"
  by (metis completedDesc_def length_0_conv length_sort)

lemma completedAsc_Nil: "completedAsc d c = [] \<longleftrightarrow> completedOf d c = []"
  by (metis completedAsc_def length_0_conv length_sort)

lemma recency_range: "1 \<le> calculateRecencyScore x \<and> calculateRecencyScore x \<le> 5"
  by (simp add: calculateRecencyScore_def)

lemma frequency_range: "1 \<le> calculateFrequencyScore x \<and> calculateFrequencyScore x \<le> 5"
  by (simp add: calculateFrequencyScore_def)

lemma monetary_range: "1 \<le> calculateMonetaryScore x \<and> calculateMonetaryScore x \<le> 5"
  by (simp add: calculateMonetaryScore_def)

lemma confidence_range:
  "0 \<le> calculateCLVConfidence n l x \<and> calculateCLVConfidence n l x \<le> 100"
  unfolding calculateCLVConfidence_def Let_def by (simp only: max_def min_def split: if_splits) simp

lemma hd_sort_key_least:
  assumes "xs \<noteq> []" and "y \<in> set xs"
  shows "k (hd (sort_key k xs)) \<le> (k y :: int)"
proof -
  have s: "sorted (map k (sort_key k xs))" by (rule sorted_sort_key)
  have ne: "sort_key k xs \<noteq> []" using assms(1) by (metis length_0_conv length_sort)
  then obtain z zs where zz: "sort_key k xs = z # zs" by (cases "sort_key k xs") auto
  have "y \<in> set (sort_key k xs)" using assms(2) by simp
  with s zz show ?thesis by auto
qed

lemma hd_completedDesc_Max:
  assumes "completedOf d c \<noteq> []"
  shows "t_timestamp (hd (completedDesc d c)) = Max (t_timestamp ` set (completedOf d c))"
proof -
  let ?xs = "completedOf d c"
  let ?h = "hd (completedDesc d c)"
  have ne: "completedDesc d c \<noteq> []" using assms by (simp add: completedDesc_Nil)
  then have "?h \<in> set (completedDesc d c)" by simp
  then have mem: "?h \<in> set ?xs" by (simp add: completedDesc_def)
  have "\<forall>y \<in> set ?xs. t_timestamp y \<le> t_timestamp ?h"
    using hd_sort_key_least [OF assms, of _ "\<lambda>t. - t_timestamp t"]
    by (simp add: completedDesc_def)
  with mem show ?thesis
    by (intro Max_eqI [symmetric]) auto
qed

section \<open>Bounds of the single scores\<close>

lemma churnRecency_mono: "fst acc \<le> fst (churnRecency x acc)"
  by (cases acc) (simp add: churnRecency_def)

lemma churnFrequencyDecline_mono: "fst acc \<le> fst (churnFrequencyDecline x acc)"
  by (cases acc) (simp add: churnFrequencyDecline_def Let_def)

lemma churnSpendingDecline_mono: "fst acc \<le> fst (churnSpendingDecline x acc)"
  by (cases acc) (simp add: churnSpendingDecline_def Let_def)

lemma churnFailed_mono: "fst acc \<le> fst (churnFailed x acc)"
  by (cases acc) (simp add: churnFailed_def)

lemma churnOrderValue_mono: "fst acc \<le> fst (churnOrderValue x acc)"
  by (cases acc) (simp add: churnOrderValue_def Let_def)

lemma churnLoyalty_mono: "fst acc \<le> fst (churnLoyalty x acc)"
  by (cases acc) (simp add: churnLoyalty_def)

lemma churn_steps_nonneg:
  "0 \<le> fst (churnLoyalty c (churnOrderValue txs (churnFailed n
          (churnSpendingDecline txs (churnFrequencyDecline txs (churnRecency x (0, [], [])))))))"
proof -
  have "(0::int) \<le> fst (churnRecency x (0, [], []))"
    using churnRecency_mono [of "(0, [], [])" x] by simp
  also have "\<dots> \<le> fst (churnFrequencyDecline txs (churnRecency x (0, [], [])))"
    by (rule churnFrequencyDecline_mono)
  also have "\<dots> \<le> fst (churnSpendingDecline txs (churnFrequencyDecline txs (churnRecency x (0, [], []))))"
    by (rule churnSpendingDecline_mono)
  also have "\<dots> \<le> fst (churnFailed n (churnSpendingDecline txs (churnFrequencyDecline txs (churnRecency x (0, [], [])))))"
    by (rule churnFailed_mono)
  also have "\<dots> \<le> fst (churnOrderValue txs (churnFailed n (churnSpendingDecline txs (churnFrequencyDecline txs (churnRecency x (0, [], []))))))"
    by (rule churnOrderValue_mono)
  also have "\<dots> \<le> fst (churnLoyalty c (churnOrderValue txs (churnFailed n (churnSpendingDecline txs (churnFrequencyDecline txs (churnRecency x (0, [], [])))))))"
    by (rule churnLoyalty_mono)
  finally show ?thesis .
qed

lemma rfm_ranges:
  assumes "calculateCustomerRFM d now c = Inr r"
  shows "1 \<le> recency_score r \<and> recency_score r \<le> 5
       \<and> 1 \<le> frequency_score r \<and> frequency_score r \<le> 5
       \<and> 1 \<le> monetary_score r \<and> monetary_score r \<le> 5
       \<and> rfm_score r = recency_score r + frequency_score r + monetary_score r"
  using assms recency_range frequency_range monetary_range
  by (auto simp: calculateCustomerRFM_def Let_def split: option.splits list.splits)

lemma clv_confidence_cases:
  assumes "calculateCustomerCLV d now c = Inr r"
  shows "clv_confidence r = 0 \<or> (\<exists>n l x. clv_confidence r = calculateCLVConfidence n l x)"
proof (cases "findCustomer d c")
  case None
  with assms show ?thesis by (simp add: calculateCustomerCLV_def)
next
  case (Some cu)
  show ?thesis
  proof (cases "completedAsc d c")
    case Nil
    with Some assms have "clv_confidence r = 0"
      by (auto simp: calculateCustomerCLV_def)
    then show ?thesis by simp
  next
    case (Cons t0 rest)
    from assms have "map_sum id clv_confidence (calculateCustomerCLV d now c) = Inr (clv_confidence r)"
      by simp
    then have "\<exists>n l x. clv_confidence r = calculateCLVConfidence n l x"
      unfolding calculateCustomerCLV_def Let_def Some Cons
      by (simp only: option.case list.case sum.inject map_sum.simps clv_result.select_convs) metis
    then show ?thesis by simp
  qed
qed

lemma clv_ranges:
  assumes "calculateCustomerCLV d now c = Inr r"
  shows "0 \<le> clv_confidence r \<and> clv_confidence r \<le> 100"
  using clv_confidence_cases [OF assms] confidence_range by auto

lemma churn_ranges:
  assumes "calculateChurnRisk d now c = Inr r"
  shows "0 \<le> churn_risk_score r \<and> churn_risk_score r \<le> 100"
proof (cases "findCustomer d c")
  case None
  with assms show ?thesis by (simp add: calculateChurnRisk_def)
next
  case (Some cu)
  show ?thesis
  proof (cases "completedDesc d c")
    case Nil
    with Some assms show ?thesis by (auto simp: calculateChurnRisk_def)
  next
    case (Cons t0 rest)
    define acc where "acc = churnLoyalty cu (churnOrderValue (t0 # rest)
       (churnFailed (countFailedSince d c (now - 90 * ms_per_day))
          (churnSpendingDecline (t0 # rest) (churnFrequencyDecline (t0 # rest)
             (churnRecency ((now - t_timestamp t0) div ms_per_day) (0, [], []))))))"
    have nn: "0 \<le> fst acc" unfolding acc_def by (rule churn_steps_nonneg)
    obtain s i p where acc: "acc = (s, i, p)" by (cases acc) auto
    have "churn_risk_score r = min 100 s"
      using assms Some Cons acc unfolding calculateChurnRisk_def acc_def [symmetric] Let_def
      by (auto simp: acc_def [symmetric] Let_def)
    with nn acc show ?thesis by simp
  qed
qed

section \<open>The scorers return a result for every existing customer\<close>

lemma calculateCustomerRFM_total:
  assumes "findCustomer d c = Some cu"
  shows "\<exists>r. calculateCustomerRFM d now c = Inr r"
  unfolding calculateCustomerRFM_def assms
  by (cases "completedDesc d c") (simp_all only: option.case list.case Let_def, blast+)

lemma calculateCustomerCLV_total:
  assumes "findCustomer d c = Some cu"
  shows "\<exists>r. calculateCustomerCLV d now c = Inr r"
  unfolding calculateCustomerCLV_def assms
  by (cases "completedAsc d c") (simp_all only: option.case list.case Let_def, blast+)

lemma calculateChurnRisk_total:
  assumes "findCustomer d c = Some cu"
  shows "\<exists>r. calculateChurnRisk d now c = Inr r"
  unfolding calculateChurnRisk_def assms
  by (cases "completedDesc d c")
     (simp_all only: option.case list.case Let_def split: prod.split, blast+)

section \<open>Zero-transaction customers\<close>

text \<open>
  Claim C1. An existing customer without any completed transaction gets the sentinel
  results: the RFM scorer returns recency 9999 days, every sub-score 1, total 3 and segment
  Lost; the CLV predictor returns prediction 0 and confidence 0; the churn scorer returns
  score 100, level critical and the indicator \<open>no_purchase_history\<close>.
\<close>
theorem zero_transaction_sentinels:
  assumes "findCustomer d customerId = Some cu"
      and "completedOf d customerId = []"
  shows "(\<exists>r. calculateCustomerRFM d now customerId = Inr r
              \<and> recency_days r = 9999 \<and> recency_score r = 1 \<and> frequency_score r = 1
              \<and> monetary_score r = 1 \<and> rfm_score r = 3 \<and> rfm_segment r = ''Lost'')
       \<and> (\<exists>r. calculateCustomerCLV d now customerId = Inr r
              \<and> clv_predicted r = 0 \<and> clv_confidence r = 0)
       \<and> (\<exists>r. calculateChurnRisk d now customerId = Inr r
              \<and> churn_risk_score r = 100 \<and> churn_risk_level r = ''critical''
              \<and> ''no_purchase_history'' \<in> set (churn_indicators r))"
proof -
  have desc: "completedDesc d customerId = []"
    using assms(2) by (simp add: completedDesc_Nil)
  have asc: "completedAsc d customerId = []"
    using assms(2) by (simp add: completedAsc_Nil)
  show ?thesis
    by (simp add: calculateCustomerRFM_def calculateCustomerCLV_def calculateChurnRisk_def
        assms(1) desc asc)
qed

text \<open>The customer of \<open>newCustomerDb\<close> whose only transaction failed.\<close>

theorem zero_transaction_sentinels_witness:
  "findCustomer newCustomerDb 1 = Some \<lparr> c_id = 1, c_loyalty_tier = Some ''bronze'' \<rparr>
   \<and> completedOf newCustomerDb 1 = []
   \<and> (\<exists>r. calculateCustomerRFM newCustomerDb 5000 1 = Inr r
              \<and> recency_days r = 9999 \<and> recency_score r = 1 \<and> frequency_score r = 1
              \<and> monetary_score r = 1 \<and> rfm_score r = 3 \<and> rfm_segment r = ''Lost'')
   \<and> (\<exists>r. calculateCustomerCLV newCustomerDb 5000 1 = Inr r
              \<and> clv_predicted r = 0 \<and> clv_confidence r = 0)
   \<and> (\<exists>r. calculateChurnRisk newCustomerDb 5000 1 = Inr r
              \<and> churn_risk_score r = 100 \<and> churn_risk_level r = ''critical''
              \<and> ''no_purchase_history'' \<in> set (churn_indicators r))"
proof -
  have h1: "findCustomer newCustomerDb 1 = Some \<lparr> c_id = 1, c_loyalty_tier = Some ''bronze'' \<rparr>"
    by (simp add: findCustomer_def newCustomerDb_def)
  have h2: "completedOf newCustomerDb 1 = []"
    by (simp add: completedOf_def newCustomerDb_def)
  from zero_transaction_sentinels [OF h1 h2, of 5000] h1 h2 show ?thesis
    by (intro conjI) blast+
qed

section \<open>Score ranges\<close>

text \<open>
  Claim C2. For an existing customer and any transaction history all three scorers return a
  result; every RFM sub-score lies in 1..5, the RFM score is their sum and lies in 3..15,
  the CLV confidence lies in 0..100 and the churn risk score lies in 0..100.
\<close>
theorem scorer_output_ranges:
  assumes "findCustomer d customerId = Some cu"
  shows "(\<exists>r. calculateCustomerRFM d now customerId = Inr r
              \<and> 1 \<le> recency_score r \<and> recency_score r \<le> 5
              \<and> 1 \<le> frequency_score r \<and> frequency_score r \<le> 5
              \<and> 1 \<le> monetary_score r \<and> monetary_score r \<le> 5
              \<and> rfm_score r = recency_score r + frequency_score r + monetary_score r
              \<and> 3 \<le> rfm_score r \<and> rfm_score r \<le> 15)
       \<and> (\<exists>r. calculateCustomerCLV d now customerId = Inr r
              \<and> 0 \<le> clv_confidence r \<and> clv_confidence r \<le> 100)
       \<and> (\<exists>r. calculateChurnRisk d now customerId = Inr r
              \<and> 0 \<le> churn_risk_score r \<and> churn_risk_score r \<le> 100)"
proof (intro conjI)
  obtain r where r: "calculateCustomerRFM d now customerId = Inr r"
    using calculateCustomerRFM_total [OF assms] by blast
  from rfm_ranges [OF r] r
  show "\<exists>r. calculateCustomerRFM d now customerId = Inr r
              \<and> 1 \<le> recency_score r \<and> recency_score r \<le> 5
              \<and> 1 \<le> frequency_score r \<and> frequency_score r \<le> 5
              \<and> 1 \<le> monetary_score r \<and> monetary_score r \<le> 5
              \<and> rfm_score r = recency_score r + frequency_score r + monetary_score r
              \<and> 3 \<le> rfm_score r \<and> rfm_score r \<le> 15"
    by auto
next
  obtain r where r: "calculateCustomerCLV d now customerId = Inr r"
    using calculateCustomerCLV_total [OF assms] by blast
  from clv_ranges [OF r] r
  show "\<exists>r. calculateCustomerCLV d now customerId = Inr r
              \<and> 0 \<le> clv_confidence r \<and> clv_confidence r \<le> 100"
    by auto
next
  obtain r where r: "calculateChurnRisk d now customerId = Inr r"
    using calculateChurnRisk_total [OF assms] by blast
  from churn_ranges [OF r] r
  show "\<exists>r. calculateChurnRisk d now customerId = Inr r
              \<and> 0 \<le> churn_risk_score r \<and> churn_risk_score r \<le> 100"
    by auto
qed

theorem scorer_output_ranges_witness:
  "findCustomer championDb 1 = Some \<lparr> c_id = 1, c_loyalty_tier = Some ''gold'' \<rparr>
   \<and> (\<exists>r. calculateCustomerRFM championDb 0 1 = Inr r
              \<and> 1 \<le> recency_score r \<and> recency_score r \<le> 5
              \<and> 1 \<le> frequency_score r \<and> frequency_score r \<le> 5
              \<and> 1 \<le> monetary_score r \<and> monetary_score r \<le> 5
              \<and> rfm_score r = recency_score r + frequency_score r + monetary_score r
              \<and> 3 \<le> rfm_score r \<and> rfm_score r \<le> 15)
   \<and> (\<exists>r. calculateCustomerCLV championDb 0 1 = Inr r
              \<and> 0 \<le> clv_confidence r \<and> clv_confidence r \<le> 100)
   \<and> (\<exists>r. calculateChurnRisk championDb 0 1 = Inr r
              \<and> 0 \<le> churn_risk_score r \<and> churn_risk_score r \<le> 100)"
proof -
  have h: "findCustomer championDb 1 = Some \<lparr> c_id = 1, c_loyalty_tier = Some ''gold'' \<rparr>"
    by (simp add: findCustomer_def championDb_def)
  from scorer_output_ranges [OF h, of 0] h show ?thesis
    by (intro conjI) blast+
qed

section \<open>Segment assignment\<close>

lemma calculateCustomerRFM_Cons:
  assumes "findCustomer d c = Some cu" and "completedDesc d c = t0 # rest"
  shows "calculateCustomerRFM d now c =
     Inr \<lparr> rfm_customer_id = c, recency_days = (now - t_timestamp t0) div ms_per_day,
           recency_score = calculateRecencyScore ((now - t_timestamp t0) div ms_per_day),
           frequency_count = int (length (t0 # rest)),
           frequency_score = calculateFrequencyScore (int (length (t0 # rest))),
           monetary_value = toFixed2 (sumAmounts (t0 # rest)),
           monetary_score = calculateMonetaryScore (sumAmounts (t0 # rest)),
           rfm_score = calculateRecencyScore ((now - t_timestamp t0) div ms_per_day)
                     + calculateFrequencyScore (int (length (t0 # rest)))
                     + calculateMonetaryScore (sumAmounts (t0 # rest)),
           rfm_segment = determineSegment
              (calculateRecencyScore ((now - t_timestamp t0) div ms_per_day)
                     + calculateFrequencyScore (int (length (t0 # rest)))
                     + calculateMonetaryScore (sumAmounts (t0 # rest)))
              (calculateRecencyScore ((now - t_timestamp t0) div ms_per_day))
              (calculateFrequencyScore (int (length (t0 # rest))))
              (calculateMonetaryScore (sumAmounts (t0 # rest))) \<rparr>"
  unfolding calculateCustomerRFM_def assms Let_def
  by (simp only: option.case list.case)

lemma calculateCustomerRFM_nonempty:
  assumes cu: "findCustomer d c = Some cu" and ne: "completedOf d c \<noteq> []"
  shows "\<exists>res. calculateCustomerRFM d now c = Inr res
          \<and> recency_score res =
              calculateRecencyScore ((now - Max (t_timestamp ` set (completedOf d c))) div ms_per_day)
          \<and> frequency_score res = calculateFrequencyScore (int (length (completedOf d c)))
          \<and> monetary_score res =
              calculateMonetaryScore (sum_list (map t_total_amount (completedOf d c)))
          \<and> rfm_score res = recency_score res + frequency_score res + monetary_score res
          \<and> rfm_segment res =
              determineSegment (rfm_score res) (recency_score res) (frequency_score res)
                (monetary_score res)"
proof -
  obtain t0 rest where cons: "completedDesc d c = t0 # rest"
    using ne completedDesc_Nil [of d c] by (cases "completedDesc d c") auto
  have ts: "t_timestamp t0 = Max (t_timestamp ` set (completedOf d c))"
    using hd_completedDesc_Max [OF ne] cons by simp
  have len: "length (t0 # rest) = length (completedOf d c)"
    using cons [symmetric] by (simp only: completedDesc_def length_sort)
  have sm: "sumAmounts (t0 # rest) = sum_list (map t_total_amount (completedOf d c))"
    using cons [symmetric]
    by (simp only: completedDesc_def sumAmounts_sum_list sum_list_sort_key)
  show ?thesis
    by (rule exI, intro conjI, rule calculateCustomerRFM_Cons [OF cu cons])
       (simp_all only: rfm_result.select_convs len sm ts)
qed

text \<open>
  Claim C5. For every score triple \<open>(r, f, m)\<close> with total \<open>r + f + m\<close>,
  \<open>determineSegment\<close> returns the first matching rule of the specification's list
  (Champions, Loyal, At Risk, Lost, otherwise Potential). And a customer with 25 completed
  transactions that total 12000, the latest of them 5 days old, gets sub-scores (5, 5, 5),
  RFM score 15 and segment Champions.
\<close>

theorem segment_first_match_and_champion_scenario:
  "determineSegment (r + f + m) r f m = firstMatchingSegment r f m
   \<and> (findCustomer d customerId = Some cu
        \<and> length (completedOf d customerId) = 25
        \<and> sum_list (map t_total_amount (completedOf d customerId)) = 12000
        \<and> (now - Max (t_timestamp ` set (completedOf d customerId))) div ms_per_day = 5
      \<longrightarrow> (\<exists>res. calculateCustomerRFM d now customerId = Inr res
                 \<and> recency_score res = 5 \<and> frequency_score res = 5 \<and> monetary_score res = 5
                 \<and> rfm_score res = 15 \<and> rfm_segment res = ''Champions''))"
proof (intro conjI impI)
  show "determineSegment (r + f + m) r f m = firstMatchingSegment r f m"
    by (simp add: determineSegment_def firstMatchingSegment_def segmentRules_def Let_def)
next
  assume h: "findCustomer d customerId = Some cu
        \<and> length (completedOf d customerId) = 25
        \<and> sum_list (map t_total_amount (completedOf d customerId)) = 12000
        \<and> (now - Max (t_timestamp ` set (completedOf d customerId))) div ms_per_day = 5"
  then have ne: "completedOf d customerId \<noteq> []" by auto
  from h have cu: "findCustomer d customerId = Some cu" by simp
  obtain res where res: "calculateCustomerRFM d now customerId = Inr res"
    and r: "recency_score res =
              calculateRecencyScore ((now - Max (t_timestamp ` set (completedOf d customerId))) div ms_per_day)"
    and f: "frequency_score res = calculateFrequencyScore (int (length (completedOf d customerId)))"
    and m: "monetary_score res =
              calculateMonetaryScore (sum_list (map t_total_amount (completedOf d customerId)))"
    and s: "rfm_score res = recency_score res + frequency_score res + monetary_score res"
    and g: "rfm_segment res =
              determineSegment (rfm_score res) (recency_score res) (frequency_score res)
                (monetary_score res)"
    using calculateCustomerRFM_nonempty [OF cu ne, of now] by blast
  have r5: "recency_score res = 5" using r h by (simp add: calculateRecencyScore_def)
  have f5: "frequency_score res = 5" using f h by (simp add: calculateFrequencyScore_def)
  have m5: "monetary_score res = 5" using m h by (simp add: calculateMonetaryScore_def)
  have s15: "rfm_score res = 15" using s r5 f5 m5 by simp
  have "rfm_segment res = ''Champions''"
    using g r5 f5 m5 s15 by (simp add: determineSegment_def)
  with res r5 f5 m5 s15
  show "\<exists>res. calculateCustomerRFM d now customerId = Inr res
                 \<and> recency_score res = 5 \<and> frequency_score res = 5 \<and> monetary_score res = 5
                 \<and> rfm_score res = 15 \<and> rfm_segment res = ''Champions''"
    by blast
qed

theorem segment_first_match_and_champion_scenario_witness:
  "determineSegment (5 + 5 + 5) 5 5 5 = firstMatchingSegment 5 5 5
   \<and> findCustomer championDb 1 = Some \<lparr> c_id = 1, c_loyalty_tier = Some ''gold'' \<rparr>
   \<and> length (completedOf championDb 1) = 25
   \<and> sum_list (map t_total_amount (completedOf championDb 1)) = 12000
   \<and> (305 * ms_per_day + 4711 - Max (t_timestamp ` set (completedOf championDb 1))) div ms_per_day = 5
   \<and> (\<exists>res. calculateCustomerRFM championDb (305 * ms_per_day + 4711) 1 = Inr res
          \<and> recency_score res = 5 \<and> frequency_score res = 5 \<and> monetary_score res = 5
          \<and> rfm_score res = 15 \<and> rfm_segment res = ''Champions'')"
proof -
  have h1: "findCustomer championDb 1 = Some \<lparr> c_id = 1, c_loyalty_tier = Some ''gold'' \<rparr>"
    by (simp add: findCustomer_def championDb_def)
  have h2: "length (completedOf championDb 1) = 25"
    by (simp add: completedOf_def championDb_def championTransactions_def upt_rec)
  have h3: "sum_list (map t_total_amount (completedOf championDb 1)) = 12000"
    by (simp add: completedOf_def championDb_def championTransactions_def upt_rec)
  have h4: "(305 * ms_per_day + 4711 - Max (t_timestamp ` set (completedOf championDb 1))) div ms_per_day = 5"
    by (simp add: completedOf_def championDb_def championTransactions_def upt_rec ms_per_day_def)
  from segment_first_match_and_champion_scenario
         [of 5 5 5 championDb 1 "\<lparr> c_id = 1, c_loyalty_tier = Some ''gold'' \<rparr>"
             "305 * ms_per_day + 4711"]
       h1 h2 h3 h4
  show ?thesis by blast
qed

section \<open>Batch runs: continue on error\<close>

lemma findCustomer_member:
  assumes "c \<in> set (customers d)"
  shows "\<exists>cu. findCustomer d (c_id c) = Some cu"
proof (cases "findCustomer d (c_id c)")
  case None
  then have "\<not> (\<exists>x. x \<in> set (customers d) \<and> c_id x = c_id c)"
    unfolding findCustomer_def find_None_iff .
  with assms show ?thesis by blast
next
  case (Some cu)
  then show ?thesis by blast
qed

lemma determineSegment_names: "determineSegment t r f m \<in> set segmentNames"
  by (simp add: determineSegment_def segmentNames_def)

lemma rfm_segment_names:
  assumes "calculateCustomerRFM d now c = Inr r"
  shows "rfm_segment r \<in> set segmentNames"
proof (cases "findCustomer d c")
  case None
  with assms show ?thesis by (simp add: calculateCustomerRFM_def)
next
  case (Some cu)
  show ?thesis
  proof (cases "completedDesc d c")
    case Nil
    with Some assms have "rfm_segment r = ''Lost''"
      by (auto simp: calculateCustomerRFM_def)
    then show ?thesis by (simp add: segmentNames_def)
  next
    case (Cons t0 rest)
    from calculateCustomerRFM_Cons [OF Some Cons, of now] assms
    have "\<exists>t a b c. rfm_segment r = determineSegment t a b c"
      by (metis rfm_result.select_convs(9) sum.inject(2))
    with determineSegment_names show ?thesis by auto
  qed
qed

lemma bumpSegment_keys: "map fst (bumpSegment name segs) = map fst segs"
  by (induction segs) (auto simp: bumpSegment_def)

lemma bumpSegment_absent:
  "name \<notin> fst ` set segs \<Longrightarrow> bumpSegment name segs = segs"
  by (induction segs) (auto simp: bumpSegment_def)

lemma bumpSegment_sum:
  assumes "distinct (map fst segs)" and "name \<in> fst ` set segs"
  shows "sum_list (map snd (bumpSegment name segs)) = sum_list (map snd segs) + 1"
  using assms
proof (induction segs)
  case Nil
  then show ?case by simp
next
  case (Cons s segs)
  obtain k n where s: "s = (k, n)" by (cases s)
  show ?case
  proof (cases "k = name")
    case True
    with Cons.prems s have "name \<notin> fst ` set segs" by auto
    then have "bumpSegment name segs = segs" by (rule bumpSegment_absent)
    then have "bumpSegment name (s # segs) = (k, n + 1) # segs"
      using True s by (simp add: bumpSegment_def)
    then show ?thesis using s by simp
  next
    case False
    with Cons.prems s have "name \<in> fst ` set segs" by auto
    moreover from Cons.prems have "distinct (map fst segs)" by simp
    ultimately have "sum_list (map snd (bumpSegment name segs)) = sum_list (map snd segs) + 1"
      by (rule Cons.IH [rotated])
    moreover have "bumpSegment name (s # segs) = s # bumpSegment name segs"
      using False s by (simp add: bumpSegment_def)
    ultimately show ?thesis by simp
  qed
qed

lemma upsertRFM_frame:
  "customers (upsertRFM d now k r) = customers d
   \<and> transactions (upsertRFM d now k r) = transactions d"
  by (simp add: upsertRFM_def)

lemma setRFMFields_row:
  "a_customer_id (setRFMFields r now row) = a_customer_id row
   \<and> a_rfm_segment (setRFMFields r now row) = Some (rfm_segment r)"
  by (simp add: setRFMFields_def)

lemma hasSegmentRowI:
  assumes "row \<in> set (customer_analytics d)" and "a_customer_id row = k"
      and "a_rfm_segment row \<noteq> None"
  shows "hasSegmentRow d k"
  unfolding hasSegmentRow_def list_ex_iff using assms by blast

lemma upsertRFM_rows:
  "customer_analytics (upsertRFM d now k r) =
     (if list_ex (\<lambda>row. a_customer_id row = k) (customer_analytics d)
      then map (\<lambda>row. if a_customer_id row = k then setRFMFields r now row else row)
             (customer_analytics d)
      else customer_analytics d @ [setRFMFields r now (newAnalyticsRow k now)])"
  by (simp add: upsertRFM_def)

lemma upsertRFM_has_row: "hasSegmentRow (upsertRFM d now k r) k"
proof (cases "list_ex (\<lambda>row. a_customer_id row = k) (customer_analytics d)")
  case True
  then obtain row where row: "row \<in> set (customer_analytics d)" "a_customer_id row = k"
    unfolding list_ex_iff by blast
  have "setRFMFields r now row \<in> set (customer_analytics (upsertRFM d now k r))"
    unfolding upsertRFM_rows set_map using True row by (simp only: if_True) force
  then show ?thesis
    by (rule hasSegmentRowI) (simp_all add: setRFMFields_row row)
next
  case False
  have "setRFMFields r now (newAnalyticsRow k now)
          \<in> set (customer_analytics (upsertRFM d now k r))"
    unfolding upsertRFM_rows using False by simp
  then show ?thesis
    by (rule hasSegmentRowI) (simp_all add: setRFMFields_row newAnalyticsRow_def)
qed

lemma upsertRFM_keeps_row:
  assumes "hasSegmentRow d j"
  shows "hasSegmentRow (upsertRFM d now k r) j"
proof -
  obtain row where row: "row \<in> set (customer_analytics d)" "a_customer_id row = j"
      "a_rfm_segment row \<noteq> None"
    using assms unfolding hasSegmentRow_def list_ex_iff by blast
  show ?thesis
  proof (cases "list_ex (\<lambda>row. a_customer_id row = k) (customer_analytics d) \<and> j = k")
    case True
    have "setRFMFields r now row \<in> set (customer_analytics (upsertRFM d now k r))"
      unfolding upsertRFM_rows set_map using True row by (simp only: if_True) force
    then show ?thesis
      by (rule hasSegmentRowI) (simp_all add: setRFMFields_row row)
  next
    case False
    have "row \<in> set (customer_analytics (upsertRFM d now k r))"
      unfolding upsertRFM_rows set_map using False row by force
    then show ?thesis using row(2,3) by (rule hasSegmentRowI)
  qed
qed

lemma rfmBatchStep_faulty:
  assumes "faulty flt c"
  shows "rfmBatchStep flt clock c (d, p, res) = (d, p, res \<lparr> rb_failed := rb_failed res + 1 \<rparr>)"
  using assms by (auto simp: rfmBatchStep_def faulty_def split: sum.splits)

lemma rfmBatchStep_ok:
  assumes "\<not> faulty flt c" and "c \<in> set (customers d)"
  shows "\<exists>r. calculateCustomerRFM d (clock (c_id c)) (c_id c) = Inr r
           \<and> rfmBatchStep flt clock c (d, p, res) =
               (upsertRFM d (clock (c_id c)) (c_id c) r, p + 1,
                res \<lparr> rb_segments := bumpSegment (rfm_segment r) (rb_segments res) \<rparr>)"
proof -
  obtain cu where "findCustomer d (c_id c) = Some cu"
    using findCustomer_member [OF assms(2)] by blast
  then obtain r where r: "calculateCustomerRFM d (clock (c_id c)) (c_id c) = Inr r"
    using calculateCustomerRFM_total by blast
  with assms(1) show ?thesis
    by (simp add: rfmBatchStep_def faulty_def)
qed


lemma segmentNames_distinct: "distinct segmentNames"
  by (simp add: segmentNames_def)

lemma rfm_fold_invariant:
  assumes "set cs \<subseteq> set (customers d)"
      and "map fst (rb_segments res) = segmentNames"
  shows "\<exists>d' res'.
           foldl (\<lambda>st c. rfmBatchStep flt clock c st) (d, p, res) cs =
             (d', p + int (length (filter (\<lambda>c. \<not> faulty flt c) cs)), res')
         \<and> customers d' = customers d
         \<and> rb_total res' = rb_total res
         \<and> rb_failed res' = rb_failed res + int (length (filter (faulty flt) cs))
         \<and> map fst (rb_segments res') = segmentNames
         \<and> sum_list (map snd (rb_segments res')) =
             sum_list (map snd (rb_segments res)) + int (length (filter (\<lambda>c. \<not> faulty flt c) cs))
         \<and> (\<forall>j. hasSegmentRow d j \<longrightarrow> hasSegmentRow d' j)
         \<and> (\<forall>c \<in> set cs. \<not> faulty flt c \<longrightarrow> hasSegmentRow d' (c_id c))"
  using assms
proof (induction cs arbitrary: d p res)
  case Nil
  then show ?case by simp
next
  case (Cons c cs)
  let ?step = "\<lambda>st c. rfmBatchStep flt clock c st"
  show ?case
  proof (cases "faulty flt c")
    case True
    let ?res1 = "res \<lparr> rb_failed := rb_failed res + 1 \<rparr>"
    have step: "rfmBatchStep flt clock c (d, p, res) = (d, p, ?res1)"
      using True by (rule rfmBatchStep_faulty)
    have sub: "set cs \<subseteq> set (customers d)" using Cons.prems(1) by simp
    have keys: "map fst (rb_segments ?res1) = segmentNames" using Cons.prems(2) by simp
    from Cons.IH [OF sub keys, of p]
    obtain d' res' where
      run: "foldl ?step (d, p, ?res1) cs =
              (d', p + int (length (filter (\<lambda>c. \<not> faulty flt c) cs)), res')"
      and fr: "customers d' = customers d"
      and tot: "rb_total res' = rb_total ?res1"
      and fl: "rb_failed res' = rb_failed ?res1 + int (length (filter (faulty flt) cs))"
      and ky: "map fst (rb_segments res') = segmentNames"
      and sm: "sum_list (map snd (rb_segments res')) =
                 sum_list (map snd (rb_segments ?res1)) + int (length (filter (\<lambda>c. \<not> faulty flt c) cs))"
      and keep: "\<forall>j. hasSegmentRow d j \<longrightarrow> hasSegmentRow d' j"
      and rows: "\<forall>c \<in> set cs. \<not> faulty flt c \<longrightarrow> hasSegmentRow d' (c_id c)"
      by blast
    have "foldl ?step (d, p, res) (c # cs) =
            (d', p + int (length (filter (\<lambda>c. \<not> faulty flt c) (c # cs))), res')"
      using run step True by simp
    moreover have "rb_failed res' = rb_failed res + int (length (filter (faulty flt) (c # cs)))"
      using fl True by simp
    moreover have "sum_list (map snd (rb_segments res')) =
        sum_list (map snd (rb_segments res)) + int (length (filter (\<lambda>c. \<not> faulty flt c) (c # cs)))"
      using sm True by simp
    moreover have "\<forall>x \<in> set (c # cs). \<not> faulty flt x \<longrightarrow> hasSegmentRow d' (c_id x)"
      using rows True by simp
    moreover have "rb_total res' = rb_total res" using tot by simp
    ultimately show ?thesis using fr ky keep by blast
  next
    case False
    have mem: "c \<in> set (customers d)" using Cons.prems(1) by simp
    obtain r where r: "calculateCustomerRFM d (clock (c_id c)) (c_id c) = Inr r"
      and step: "rfmBatchStep flt clock c (d, p, res) =
               (upsertRFM d (clock (c_id c)) (c_id c) r, p + 1,
                res \<lparr> rb_segments := bumpSegment (rfm_segment r) (rb_segments res) \<rparr>)"
      using rfmBatchStep_ok [OF False mem] by blast
    let ?d1 = "upsertRFM d (clock (c_id c)) (c_id c) r"
    let ?res1 = "res \<lparr> rb_segments := bumpSegment (rfm_segment r) (rb_segments res) \<rparr>"
    have sub: "set cs \<subseteq> set (customers ?d1)"
      using Cons.prems(1) upsertRFM_frame [of d "clock (c_id c)" "c_id c" r] by simp
    have keys: "map fst (rb_segments ?res1) = segmentNames"
      using Cons.prems(2) by (simp add: bumpSegment_keys)
    have name: "rfm_segment r \<in> fst ` set (rb_segments res)"
      using rfm_segment_names [OF r] Cons.prems(2) by (metis set_map)
    have dist: "distinct (map fst (rb_segments res))"
      using Cons.prems(2) segmentNames_distinct by simp
    have sum1: "sum_list (map snd (rb_segments ?res1)) = sum_list (map snd (rb_segments res)) + 1"
      using bumpSegment_sum [OF dist name] by simp
    from Cons.IH [OF sub keys, of "p + 1"]
    obtain d' res' where
      run: "foldl ?step (?d1, p + 1, ?res1) cs =
              (d', p + 1 + int (length (filter (\<lambda>c. \<not> faulty flt c) cs)), res')"
      and fr: "customers d' = customers ?d1"
      and tot: "rb_total res' = rb_total ?res1"
      and fl: "rb_failed res' = rb_failed ?res1 + int (length (filter (faulty flt) cs))"
      and ky: "map fst (rb_segments res') = segmentNames"
      and sm: "sum_list (map snd (rb_segments res')) =
                 sum_list (map snd (rb_segments ?res1)) + int (length (filter (\<lambda>c. \<not> faulty flt c) cs))"
      and keep: "\<forall>j. hasSegmentRow ?d1 j \<longrightarrow> hasSegmentRow d' j"
      and rows: "\<forall>c \<in> set cs. \<not> faulty flt c \<longrightarrow> hasSegmentRow d' (c_id c)"
      by blast
    have "foldl ?step (d, p, res) (c # cs) =
            (d', p + int (length (filter (\<lambda>c. \<not> faulty flt c) (c # cs))), res')"
      using run step False by (simp add: add.assoc)
    moreover have "customers d' = customers d"
      using fr upsertRFM_frame [of d "clock (c_id c)" "c_id c" r] by simp
    moreover have "rb_failed res' = rb_failed res + int (length (filter (faulty flt) (c # cs)))"
      using fl False by simp
    moreover have "sum_list (map snd (rb_segments res')) =
        sum_list (map snd (rb_segments res)) + int (length (filter (\<lambda>c. \<not> faulty flt c) (c # cs)))"
      using sm sum1 False by simp
    moreover have "\<forall>j. hasSegmentRow d j \<longrightarrow> hasSegmentRow d' j"
      using keep upsertRFM_keeps_row by blast
    moreover have "\<forall>x \<in> set (c # cs). \<not> faulty flt x \<longrightarrow> hasSegmentRow d' (c_id x)"
      using rows keep upsertRFM_has_row [of d "clock (c_id c)" "c_id c" r] by simp
    moreover have "rb_total res' = rb_total res" using tot by simp
    ultimately show ?thesis using ky by blast
  qed
qed


text \<open>
  Claim C8. \<open>calculateAllCustomersRFM\<close> iterates every customer. A rejected read or
  write for one customer is caught and counted in \<open>failed\<close>, and the run goes on: it
  returns a summary (it does not abort), \<open>failed\<close> is the number of customers that hit a
  failure, \<open>processed\<close> the number of the others, so \<open>processed + failed\<close> is the
  number of customers iterated; the summary has a count for each of the five segments,
  these counts add up to \<open>processed\<close>, and every customer without a failure has its
  row persisted.
\<close>

theorem rfm_batch_continues_on_error:
  assumes "\<not> list_fails flt"
  shows "\<exists>d' res. calculateAllCustomersRFM flt clock d = (d', Inr res)
           \<and> rb_total res = int (length (customers d))
           \<and> rb_failed res = int (length (filter (faulty flt) (customers d)))
           \<and> rb_processed res = int (length (filter (\<lambda>c. \<not> faulty flt c) (customers d)))
           \<and> rb_processed res + rb_failed res = rb_total res
           \<and> map fst (rb_segments res) = segmentNames
           \<and> sum_list (map snd (rb_segments res)) = rb_processed res
           \<and> (\<forall>c \<in> set (customers d). \<not> faulty flt c \<longrightarrow> hasSegmentRow d' (c_id c))"
proof -
  let ?res0 = "\<lparr> rb_total = int (length (customers d)), rb_processed = 0, rb_failed = 0,
                  rb_segments = [(''Champions'', 0), (''Loyal'', 0), (''Potential'', 0),
                                 (''At Risk'', 0), (''Lost'', 0)] \<rparr>"
  let ?n = "int (length (filter (\<lambda>c. \<not> faulty flt c) (customers d)))"
  have keys: "map fst (rb_segments ?res0) = segmentNames"
    by (simp add: segmentNames_def)
  from rfm_fold_invariant [OF subset_refl keys, where flt = flt and clock = clock and p = 0]
  obtain d' res' where
    run: "foldl (\<lambda>st c. rfmBatchStep flt clock c st) (d, 0, ?res0) (customers d) = (d', 0 + ?n, res')"
    and tot: "rb_total res' = rb_total ?res0"
    and fl: "rb_failed res' = rb_failed ?res0 + int (length (filter (faulty flt) (customers d)))"
    and ky: "map fst (rb_segments res') = segmentNames"
    and sm: "sum_list (map snd (rb_segments res')) = sum_list (map snd (rb_segments ?res0)) + ?n"
    and rows: "\<forall>c \<in> set (customers d). \<not> faulty flt c \<longrightarrow> hasSegmentRow d' (c_id c)"
    by blast
  let ?res = "res' \<lparr> rb_processed := ?n \<rparr>"
  have ret: "calculateAllCustomersRFM flt clock d = (d', Inr ?res)"
    using assms run by (simp add: calculateAllCustomersRFM_def Let_def)
  have split: "length (filter (\<lambda>c. \<not> faulty flt c) (customers d))
                + length (filter (faulty flt) (customers d)) = length (customers d)"
    using sum_length_filter_compl [of "faulty flt" "customers d"] by simp
  have "rb_total ?res = int (length (customers d))" using tot by simp
  moreover have "rb_failed ?res = int (length (filter (faulty flt) (customers d)))"
    using fl by simp
  moreover have "rb_processed ?res = ?n" by simp
  moreover have "rb_processed ?res + rb_failed ?res = rb_total ?res"
    using fl tot split by simp
  moreover have "map fst (rb_segments ?res) = segmentNames" using ky by simp
  moreover have "sum_list (map snd (rb_segments ?res)) = rb_processed ?res" using sm by simp
  ultimately show ?thesis using ret rows by blast
qed

text \<open>Two customers, the write for the second one is rejected.\<close>

theorem rfm_batch_continues_on_error_witness:
  "\<not> list_fails secondWriteFails
   \<and> (\<exists>d' res. calculateAllCustomersRFM secondWriteFails (\<lambda>i. 305 * ms_per_day) twoCustomerDb
                  = (d', Inr res)
         \<and> rb_total res = 2 \<and> rb_failed res = 1 \<and> rb_processed res = 1
         \<and> map fst (rb_segments res) = segmentNames
         \<and> sum_list (map snd (rb_segments res)) = 1
         \<and> hasSegmentRow d' 1)"
proof -
  have h: "\<not> list_fails secondWriteFails" by (simp add: secondWriteFails_def)
  have cs: "customers twoCustomerDb =
              [\<lparr> c_id = 1, c_loyalty_tier = Some ''gold'' \<rparr>,
               \<lparr> c_id = 2, c_loyalty_tier = Some ''bronze'' \<rparr>]"
    by (simp add: twoCustomerDb_def championDb_def)
  have f1: "\<not> faulty secondWriteFails \<lparr> c_id = 1, c_loyalty_tier = Some ''gold'' \<rparr>"
    by (simp add: faulty_def secondWriteFails_def)
  have f2: "faulty secondWriteFails \<lparr> c_id = 2, c_loyalty_tier = Some ''bronze'' \<rparr>"
    by (simp add: faulty_def secondWriteFails_def)
  from rfm_batch_continues_on_error [OF h, of "\<lambda>i. 305 * ms_per_day" twoCustomerDb]
  show ?thesis
    unfolding cs using h f1 f2 by auto
qed

lemma updateCLV_customers: "customers (updateCLV d k r) = customers d"
  by (simp add: updateCLV_def)

lemma clvBatchStep_faulty:
  assumes "faulty flt c"
  shows "clvBatchStep flt clock c (d, p, res) = (d, p, res \<lparr> cb_failed := cb_failed res + 1 \<rparr>)"
  using assms by (auto simp: clvBatchStep_def faulty_def split: sum.splits)

lemma clvBatchStep_ok:
  assumes "\<not> faulty flt c" and "c \<in> set (customers d)"
  shows "\<exists>r. clvBatchStep flt clock c (d, p, res) =
               (updateCLV d (c_id c) r, p + 1,
                res \<lparr> total_predicted_value := total_predicted_value res + clv_predicted r \<rparr>)"
proof -
  obtain cu where "findCustomer d (c_id c) = Some cu"
    using findCustomer_member [OF assms(2)] by blast
  then obtain r where r: "calculateCustomerCLV d (clock (c_id c)) (c_id c) = Inr r"
    using calculateCustomerCLV_total by blast
  with assms(1) show ?thesis
    by (intro exI [of _ r]) (simp add: clvBatchStep_def faulty_def)
qed

lemma clv_fold_invariant:
  assumes "set cs \<subseteq> set (customers d)"
  shows "\<exists>d' res'.
           foldl (\<lambda>st c. clvBatchStep flt clock c st) (d, p, res) cs =
             (d', p + int (length (filter (\<lambda>c. \<not> faulty flt c) cs)), res')
         \<and> customers d' = customers d
         \<and> cb_total res' = cb_total res
         \<and> cb_failed res' = cb_failed res + int (length (filter (faulty flt) cs))
         \<and> ((\<forall>c \<in> set cs. faulty flt c) \<longrightarrow> total_predicted_value res' = total_predicted_value res)"
  using assms
proof (induction cs arbitrary: d p res)
  case Nil
  then show ?case by simp
next
  case (Cons c cs)
  let ?step = "\<lambda>st c. clvBatchStep flt clock c st"
  show ?case
  proof (cases "faulty flt c")
    case True
    let ?res1 = "res \<lparr> cb_failed := cb_failed res + 1 \<rparr>"
    have step: "clvBatchStep flt clock c (d, p, res) = (d, p, ?res1)"
      using True by (rule clvBatchStep_faulty)
    have sub: "set cs \<subseteq> set (customers d)" using Cons.prems(1) by simp
    from Cons.IH [OF sub, where p = p and res = ?res1]
    obtain d' res' where
      run: "foldl ?step (d, p, ?res1) cs =
              (d', p + int (length (filter (\<lambda>c. \<not> faulty flt c) cs)), res')"
      and fr: "customers d' = customers d"
      and tot: "cb_total res' = cb_total ?res1"
      and fl: "cb_failed res' = cb_failed ?res1 + int (length (filter (faulty flt) cs))"
      and tpv: "(\<forall>c \<in> set cs. faulty flt c) \<longrightarrow> total_predicted_value res' = total_predicted_value ?res1"
      by blast
    have "foldl ?step (d, p, res) (c # cs) =
            (d', p + int (length (filter (\<lambda>c. \<not> faulty flt c) (c # cs))), res')"
      using run step True by simp
    moreover have "cb_failed res' = cb_failed res + int (length (filter (faulty flt) (c # cs)))"
      using fl True by simp
    moreover have "(\<forall>x \<in> set (c # cs). faulty flt x) \<longrightarrow> total_predicted_value res' = total_predicted_value res"
      using tpv by simp
    moreover have "cb_total res' = cb_total res" using tot by simp
    ultimately show ?thesis using fr by blast
  next
    case False
    have mem: "c \<in> set (customers d)" using Cons.prems(1) by simp
    obtain r where step: "clvBatchStep flt clock c (d, p, res) =
               (updateCLV d (c_id c) r, p + 1,
                res \<lparr> total_predicted_value := total_predicted_value res + clv_predicted r \<rparr>)"
      using clvBatchStep_ok [OF False mem] by blast
    let ?d1 = "updateCLV d (c_id c) r"
    let ?res1 = "res \<lparr> total_predicted_value := total_predicted_value res + clv_predicted r \<rparr>"
    have sub: "set cs \<subseteq> set (customers ?d1)"
      using Cons.prems(1) by (simp add: updateCLV_customers)
    from Cons.IH [OF sub, where p = "p + 1" and res = ?res1]
    obtain d' res' where
      run: "foldl ?step (?d1, p + 1, ?res1) cs =
              (d', p + 1 + int (length (filter (\<lambda>c. \<not> faulty flt c) cs)), res')"
      and fr: "customers d' = customers ?d1"
      and tot: "cb_total res' = cb_total ?res1"
      and fl: "cb_failed res' = cb_failed ?res1 + int (length (filter (faulty flt) cs))"
      by blast
    have "foldl ?step (d, p, res) (c # cs) =
            (d', p + int (length (filter (\<lambda>c. \<not> faulty flt c) (c # cs))), res')"
      using run step False by (simp add: add.assoc)
    moreover have "customers d' = customers d"
      using fr by (simp add: updateCLV_customers)
    moreover have "cb_failed res' = cb_failed res + int (length (filter (faulty flt) (c # cs)))"
      using fl False by simp
    moreover have "(\<forall>x \<in> set (c # cs). faulty flt x) \<longrightarrow> total_predicted_value res' = total_predicted_value res"
      using False by simp
    moreover have "cb_total res' = cb_total res" using tot by simp
    ultimately show ?thesis by blast
  qed
qed

text \<open>
  Claim C10. \<open>calculateAllCustomersCLV\<close> computes \<open>avg_clv\<close> as the unguarded quotient
  of \<open>total_predicted_value\<close> by \<open>processed\<close>. When no customer was processed (the
  population is empty or every customer hit a failure) this is \<open>0 / 0\<close>, not a number;
  \<open>avg_clv\<close> is a number exactly when at least one customer was processed.
\<close>

theorem clv_batch_average_needs_processed:
  assumes "\<not> list_fails flt"
  shows "\<exists>d' res. calculateAllCustomersCLV flt clock d = (d', Inr res)
           \<and> cb_processed res = int (length (filter (\<lambda>c. \<not> faulty flt c) (customers d)))
           \<and> avg_clv res = jsDivide (total_predicted_value res) (of_int (cb_processed res))
           \<and> (cb_processed res = 0 \<longleftrightarrow> (\<forall>c \<in> set (customers d). faulty flt c))
           \<and> (cb_processed res = 0 \<longrightarrow> avg_clv res = NaN)
           \<and> (cb_processed res > 0 \<longrightarrow>
                avg_clv res = Finite (total_predicted_value res / of_int (cb_processed res)))"
proof -
  let ?res0 = "\<lparr> cb_total = int (length (customers d)), cb_processed = 0, cb_failed = 0,
                  total_predicted_value = 0, avg_clv = Finite 0 \<rparr>"
  let ?n = "int (length (filter (\<lambda>c. \<not> faulty flt c) (customers d)))"
  from clv_fold_invariant [OF subset_refl, where flt = flt and clock = clock and p = 0 and res = ?res0]
  obtain d' res' where
    run: "foldl (\<lambda>st c. clvBatchStep flt clock c st) (d, 0, ?res0) (customers d) = (d', 0 + ?n, res')"
    and tpv: "(\<forall>c \<in> set (customers d). faulty flt c) \<longrightarrow> total_predicted_value res' = total_predicted_value ?res0"
    by blast
  let ?res = "res' \<lparr> cb_processed := ?n, avg_clv := jsDivide (total_predicted_value res') (of_int ?n) \<rparr>"
  have ret: "calculateAllCustomersCLV flt clock d = (d', Inr ?res)"
    using assms run by (simp add: calculateAllCustomersCLV_def Let_def)
  have zero: "?n = 0 \<longleftrightarrow> (\<forall>c \<in> set (customers d). faulty flt c)"
    by (auto simp: filter_empty_conv)
  have "cb_processed ?res = ?n" by simp
  moreover have "avg_clv ?res = jsDivide (total_predicted_value ?res) (of_int (cb_processed ?res))"
    by simp
  moreover have "cb_processed ?res = 0 \<longleftrightarrow> (\<forall>c \<in> set (customers d). faulty flt c)"
    using zero by simp
  moreover have "cb_processed ?res = 0 \<longrightarrow> avg_clv ?res = NaN"
    using zero tpv by (auto simp: jsDivide_def)
  moreover have "cb_processed ?res > 0 \<longrightarrow>
                avg_clv ?res = Finite (total_predicted_value ?res / of_int (cb_processed ?res))"
    by (simp add: jsDivide_def)
  ultimately show ?thesis using ret by blast
qed

text \<open>A run in which every read is rejected, and a run that processes one customer.\<close>

theorem clv_batch_average_needs_processed_witness:
  "\<not> list_fails allReadsFail
   \<and> (\<exists>d' res. calculateAllCustomersCLV allReadsFail (\<lambda>i. 0) twoCustomerDb = (d', Inr res)
         \<and> cb_processed res = 0 \<and> avg_clv res = NaN)
   \<and> \<not> list_fails secondWriteFails
   \<and> (\<exists>d' res. calculateAllCustomersCLV secondWriteFails (\<lambda>i. 0) twoCustomerDb = (d', Inr res)
         \<and> cb_processed res = 1
         \<and> avg_clv res = Finite (total_predicted_value res / 1))"
proof -
  have h1: "\<not> list_fails allReadsFail" by (simp add: allReadsFail_def)
  have h2: "\<not> list_fails secondWriteFails" by (simp add: secondWriteFails_def)
  have cs: "customers twoCustomerDb =
              [\<lparr> c_id = 1, c_loyalty_tier = Some ''gold'' \<rparr>,
               \<lparr> c_id = 2, c_loyalty_tier = Some ''bronze'' \<rparr>]"
    by (simp add: twoCustomerDb_def championDb_def)
  have a: "\<And>c. faulty allReadsFail c" by (simp add: faulty_def allReadsFail_def)
  have f1: "\<not> faulty secondWriteFails \<lparr> c_id = 1, c_loyalty_tier = Some ''gold'' \<rparr>"
    by (simp add: faulty_def secondWriteFails_def)
  have f2: "faulty secondWriteFails \<lparr> c_id = 2, c_loyalty_tier = Some ''bronze'' \<rparr>"
    by (simp add: faulty_def secondWriteFails_def)
  have p1: "\<exists>d' res. calculateAllCustomersCLV allReadsFail (\<lambda>i. 0) twoCustomerDb = (d', Inr res)
         \<and> cb_processed res = 0 \<and> avg_clv res = NaN"
    using clv_batch_average_needs_processed [OF h1, of "\<lambda>i. 0" twoCustomerDb] a
    unfolding cs by auto
  have p2: "\<exists>d' res. calculateAllCustomersCLV secondWriteFails (\<lambda>i. 0) twoCustomerDb = (d', Inr res)
         \<and> cb_processed res = 1
         \<and> avg_clv res = Finite (total_predicted_value res / 1)"
    using clv_batch_average_needs_processed [OF h2, of "\<lambda>i. 0" twoCustomerDb] f1 f2
    unfolding cs by auto
  from h1 h2 p1 p2 show ?thesis by blast
qed

section \<open>Cache round trip\<close>

text \<open>
  A read right after a write returns the written value, and a read after the time to live
  has passed returns nothing when no other call came in between (times from 1970 on).
\<close>

lemma cache_set_get_immediate:
  assumes "ttlHours > 0"
  shows "snd (cacheService_get (fst (cacheService_set cs key v ttlHours ty now ok1)) key now ok2) = Some v"
  using assms
  by (simp add: cacheService_set_def cacheService_get_def memoryCache_set_def memoryCache_get_def
      Let_def)

lemma find_upsertCacheRow:
  "find (\<lambda>r. cache_key r = cache_key row \<and> P r) (upsertCacheRow rows row) =
     (if P row then Some row else None)"
proof -
  let ?k = "cache_key row"
  have a: "find (\<lambda>r. cache_key r = ?k \<and> P r) (map (\<lambda>r. if cache_key r = ?k then row else r) rows)
           = (if P row \<and> list_ex (\<lambda>r. cache_key r = ?k) rows then Some row else None)"
    by (induction rows) auto
  have b: "find (\<lambda>r. cache_key r = ?k \<and> P r) (rows @ [row]) = (if P row then Some row else None)"
    if "\<not> list_ex (\<lambda>r. cache_key r = ?k) rows"
    using that by (induction rows) auto
  show ?thesis
  proof (cases "list_ex (\<lambda>r. cache_key r = ?k) rows")
    case True
    then show ?thesis by (simp add: upsertCacheRow_def a)
  next
    case False
    then show ?thesis by (simp add: upsertCacheRow_def b)
  qed
qed

lemma cache_set_get_expired:
  assumes "ttlHours > 0" and "0 \<le> now"
      and "of_int later > of_int now + ttlHours * 3600 * 1000"
  shows "snd (cacheService_get (fst (cacheService_set cs key v ttlHours ty now True)) key later ok2) = None"
proof -
  let ?x = "of_int now + ttlHours * 3600 * 1000 :: real"
  have pos: "?x \<ge> 0" using assms(1,2) by simp
  then have "real_of_int (newDate ?x) \<le> ?x" by (simp add: newDate_def)
  with assms(3) have "real_of_int (newDate ?x) < of_int later" by linarith
  then have lt: "newDate ?x < later" by simp
  have f: "find (\<lambda>r. cache_key r = key \<and> later \<le> expires_at r)
             (upsertCacheRow (analyticsCache cs)
                \<lparr> cache_key = key, cache_value = v, cache_type = ty, expires_at = newDate ?x \<rparr>) = None"
    using find_upsertCacheRow [where row = "\<lparr> cache_key = key, cache_value = v, cache_type = ty, expires_at = newDate ?x \<rparr>"
        and P = "\<lambda>r. later \<le> expires_at r" and rows = "analyticsCache cs"] lt
    by simp
  show ?thesis
    using assms f
    by (simp add: cacheService_set_def cacheService_get_def memoryCache_set_def memoryCache_get_def
      Let_def)
qed

text \<open>
  Claim C7. After \<open>set(k, v, ttl)\<close> with \<open>ttl > 0\<close> an immediate \<open>get(k)\<close> returns
  \<open>v\<close>, and a \<open>get(k)\<close> after the ttl has elapsed returns absent: an expired entry is
  never returned from either tier. The two lemmas above are the round trip. The code breaks
  the second half on the path that refills the in-process tier from the durable tier: less
  than one second before the expiry the remaining ttl is floored to \<open>0\<close>, which the
  in-process tier takes as "no expiry". In \<open>staleReadTrace\<close> the durable row expires at
  6 h; the read at 6 h minus 0.5 s (after the in-process tier was flushed) returns the value
  and stores it without expiry, and the read at 30 h still returns it.
\<close>

theorem expired_entry_served_from_memory:
  "(case staleReadTrace of (s, r3, r4) \<Rightarrow>
      r3 = Some ''payload'' \<and> r4 = Some ''payload''
      \<and> map expires_at (analyticsCache s) = [6 * 3600 * 1000]
      \<and> map_option me_t (memoryCache s overviewKey) = Some 0)"
  by (simp add: staleReadTrace_def cacheService_set_def cacheService_get_def
      cacheService_clear_def memoryCache_set_def memoryCache_get_def memoryCache_flushAll_def
      emptyCache_def upsertCacheRow_def overviewKey_def newDate_def Let_def)

section \<open>The affinity stage\<close>

lemma uniqueInOrder_set: "set (uniqueInOrder seen xs) = set xs - set seen"
  by (induction seen xs rule: uniqueInOrder.induct) auto

lemma uniqueInOrder_distinct: "distinct (uniqueInOrder seen xs)"
  by (induction seen xs rule: uniqueInOrder.induct) (auto simp: uniqueInOrder_set)

lemma groupCount_mem:
  "(k, c) \<in> set (groupCount ids) \<longleftrightarrow> k \<in> set ids \<and> c = count_list ids k"
  by (auto simp: groupCount_def uniqueInOrder_set)

lemma groupCount_keys_distinct: "distinct (map fst (groupCount ids))"
  by (simp add: groupCount_def comp_def uniqueInOrder_distinct)

lemma count_list_product:
  "count_list (map t_product_id txs) k = length (filter (\<lambda>t. t_product_id t = k) txs)"
  by (induction txs) auto

lemma topCounts_mem:
  assumes "(k, c) \<in> set (topCounts txs limit)"
  shows "k \<in> t_product_id ` set txs \<and> c = length (filter (\<lambda>t. t_product_id t = k) txs)"
proof -
  have "set (topCounts txs limit) \<subseteq> set (groupCount (map t_product_id txs))"
    unfolding topCounts_def
    using set_take_subset [of "nat limit"
            "sort_key (\<lambda>row. - int (snd row)) (groupCount (map t_product_id txs))"]
    by simp
  with assms have "(k, c) \<in> set (groupCount (map t_product_id txs))" by blast
  then show ?thesis
    by (simp add: groupCount_mem count_list_product)
qed

lemma topCounts_length: "length (topCounts txs limit) \<le> nat limit"
  by (simp add: topCounts_def)

lemma find_SomeD:
  assumes "find P xs = Some x"
  shows "x \<in> set xs \<and> P x"
  using assms by (induction xs) (auto split: if_splits)

lemma countOf_Some:
  assumes "countOf rows k = Some c"
  shows "(k, c) \<in> set rows"
proof -
  from assms obtain row where f: "find (\<lambda>row. fst row = k) rows = Some row" and c: "snd row = c"
    by (auto simp: countOf_def)
  from f have "row \<in> set rows \<and> fst row = k"
    by (rule find_SomeD)
  with c show ?thesis by (cases row) auto
qed

lemma toCandidates_mem:
  assumes "r \<in> set (toCandidates rows prods ty why)"
  shows "cand_product r \<in> set prods
       \<and> (\<exists>c. (p_id (cand_product r), c) \<in> set rows
              \<and> cand_score r = (if c = 0 then 1 else real c))"
proof (cases "list_all (\<lambda>p. countOf rows (p_id p) \<noteq> None) prods")
  case False
  with assms show ?thesis by (simp add: toCandidates_def)
next
  case True
  with assms obtain p where p: "p \<in> set prods"
    and r: "r = \<lparr> cand_product = p,
                   cand_score = (let c = the (countOf rows (p_id p)) in if c = 0 then 1 else real c),
                   cand_type = ty, cand_reason = why \<rparr>"
    by (auto simp: toCandidates_def)
  from True p obtain c where c: "countOf rows (p_id p) = Some c"
    by (auto simp: list_all_iff)
  then have "(p_id p, c) \<in> set rows" by (rule countOf_Some)
  moreover have "cand_score r = (if c = 0 then 1 else real c)"
    using r c by (simp add: Let_def)
  moreover have "cand_product r = p" using r by simp
  ultimately show ?thesis using p by blast
qed

lemma toCandidates_length: "length (toCandidates rows prods ty why) \<le> length prods"
  by (simp add: toCandidates_def)

lemma inStockProducts_mem:
  "p \<in> set (inStockProducts d ids) \<longleftrightarrow>
     p \<in> set (products d) \<and> p_id p \<in> set ids \<and> p_stock_quantity p > 0"
  by (auto simp: inStockProducts_def)

lemma inStockProducts_length:
  assumes "distinct (map p_id (products d))"
  shows "length (inStockProducts d ids) \<le> length ids"
proof -
  let ?ps = "inStockProducts d ids"
  have "distinct (map p_id ?ps)"
    using assms unfolding inStockProducts_def by (rule distinct_map_filter)
  then have "card (set (map p_id ?ps)) = length (map p_id ?ps)"
    by (rule distinct_card)
  then have "length ?ps = card (set (map p_id ?ps))"
    by simp
  also have "\<dots> \<le> card (set ids)"
    by (rule card_mono) (auto simp: inStockProducts_mem)
  also have "\<dots> \<le> length ids" by (rule card_length)
  finally show ?thesis .
qed

lemma affinity_mem:
  assumes "r \<in> set (getProductAffinityRecommendations d purchased limit)"
  shows "cand_product r \<in> set (products d)
       \<and> p_stock_quantity (cand_product r) > 0
       \<and> p_id (cand_product r) \<notin> set purchased
       \<and> cand_score r =
           real (length (filter (\<lambda>t. t_product_id t = p_id (cand_product r))
                           (affinityRows d purchased)))"
proof -
  let ?rows = "topCounts (affinityRows d purchased) limit"
  from assms have "r \<in> set (toCandidates ?rows (inStockProducts d (map fst ?rows)) ''affinity''
              ''Frequently bought together with your previous purchases'')"
    by (simp add: getProductAffinityRecommendations_def Let_def split: if_splits)
  from toCandidates_mem [OF this]
  obtain c where p: "cand_product r \<in> set (inStockProducts d (map fst ?rows))"
    and c: "(p_id (cand_product r), c) \<in> set ?rows"
    and s: "cand_score r = (if c = 0 then 1 else real c)"
    by blast
  from topCounts_mem [OF c]
  have k: "p_id (cand_product r) \<in> t_product_id ` set (affinityRows d purchased)"
    and n: "c = length (filter (\<lambda>t. t_product_id t = p_id (cand_product r)) (affinityRows d purchased))"
    by simp_all
  from k have notp: "p_id (cand_product r) \<notin> set purchased"
    by (auto simp: affinityRows_def notIn_def)
  from k n have "c \<noteq> 0"
    by (auto simp: filter_empty_conv)
  with s n p notp show ?thesis
    by (simp add: inStockProducts_mem)
qed

lemma affinity_length:
  assumes "distinct (map p_id (products d))"
  shows "length (getProductAffinityRecommendations d purchased limit) \<le> nat limit"
proof -
  let ?rows = "topCounts (affinityRows d purchased) limit"
  have "length (toCandidates ?rows (inStockProducts d (map fst ?rows)) ''affinity''
              ''Frequently bought together with your previous purchases'')
        \<le> length (inStockProducts d (map fst ?rows))"
    by (rule toCandidates_length)
  also have "\<dots> \<le> length (map fst ?rows)"
    using assms by (rule inStockProducts_length)
  also have "\<dots> \<le> nat limit" by (simp add: topCounts_length)
  finally show ?thesis
    by (simp add: getProductAffinityRecommendations_def Let_def)
qed

lemma affinityRows_filter:
  assumes "k \<notin> set purchased"
  shows "filter (\<lambda>t. t_product_id t = k) (affinityRows d purchased) =
         filter (\<lambda>t. t_status t = Completed \<and> t_product_id t = k
                      \<and> t_customer_id t \<in> set (coBuyers d purchased)) (transactions d)"
  using assms unfolding affinityRows_def notIn_def filter_filter
  by (intro filter_cong) auto

text \<open>
  Claim C4, as amended. In the affinity stage (called with \<open>limit * 2\<close>) the score of a
  candidate is the number of completed purchases of the candidate made by customers who
  bought at least one of the target's purchased products; a customer who bought the
  candidate several times counts that many times. Purchased and out-of-stock products are
  excluded and at most \<open>2 * limit\<close> candidates are kept (product ids are the primary key
  of the product table).
\<close>

theorem affinity_score_counts_purchases:
  assumes "distinct (map p_id (products d))"
  shows "length (getProductAffinityRecommendations d purchased (limit * 2)) \<le> nat (limit * 2)
       \<and> (\<forall>r \<in> set (getProductAffinityRecommendations d purchased (limit * 2)).
             cand_score r =
               real (length (filter (\<lambda>t. t_status t = Completed
                                        \<and> t_product_id t = p_id (cand_product r)
                                        \<and> t_customer_id t \<in> set (coBuyers d purchased))
                               (transactions d)))
             \<and> p_id (cand_product r) \<notin> set purchased
             \<and> cand_product r \<in> set (products d)
             \<and> p_stock_quantity (cand_product r) > 0)"
proof (intro conjI ballI)
  show "length (getProductAffinityRecommendations d purchased (limit * 2)) \<le> nat (limit * 2)"
    using assms by (rule affinity_length)
next
  fix r assume r: "r \<in> set (getProductAffinityRecommendations d purchased (limit * 2))"
  note m = affinity_mem [OF r]
  from m show "p_id (cand_product r) \<notin> set purchased" by simp
  from m show "cand_product r \<in> set (products d)" by simp
  from m show "p_stock_quantity (cand_product r) > 0" by simp
  from m affinityRows_filter [of "p_id (cand_product r)" purchased d]
  show "cand_score r =
               real (length (filter (\<lambda>t. t_status t = Completed
                                        \<and> t_product_id t = p_id (cand_product r)
                                        \<and> t_customer_id t \<in> set (coBuyers d purchased))
                               (transactions d)))"
    by simp
qed

lemma shop_purchased: "purchasedProductIdsOf shopDb 1 = [10]"
  by (simp add: purchasedProductIdsOf_def completedOf_def shopDb_def)

lemma shop_affinity:
  "getProductAffinityRecommendations shopDb [10] (5 * 2) =
     [\<lparr> cand_product = \<lparr> p_id = 20, p_stock_quantity = 1 \<rparr>, cand_score = 2,
        cand_type = ''affinity'',
        cand_reason = ''Frequently bought together with your previous purchases'' \<rparr>]"
  by (simp add: getProductAffinityRecommendations_def shopDb_def topCounts_def affinityRows_def
      coBuyers_def notIn_def groupCount_def inStockProducts_def toCandidates_def countOf_def Let_def)

theorem affinity_score_counts_purchases_witness:
  "distinct (map p_id (products shopDb))
   \<and> getProductAffinityRecommendations shopDb [10] (5 * 2) = [candidate20]
   \<and> length (getProductAffinityRecommendations shopDb [10] (5 * 2)) \<le> nat (5 * 2)
   \<and> cand_score candidate20 =
         real (length (filter (\<lambda>t. t_status t = Completed
                                  \<and> t_product_id t = p_id (cand_product candidate20)
                                  \<and> t_customer_id t \<in> set (coBuyers shopDb [10]))
                         (transactions shopDb)))
   \<and> p_id (cand_product candidate20) \<notin> set [10]
   \<and> cand_product candidate20 \<in> set (products shopDb)
   \<and> p_stock_quantity (cand_product candidate20) > 0"
proof -
  have h: "distinct (map p_id (products shopDb))" by (simp add: shopDb_def)
  have eq: "getProductAffinityRecommendations shopDb [10] (5 * 2) = [candidate20]"
    unfolding shop_affinity by (simp add: candidate20_def)
  from affinity_score_counts_purchases [OF h, of "[10]" 5] h eq show ?thesis by simp
qed

text \<open>
  Claim C4 as stated says the score is the number of co-purchasers. In the shop customer 2
  is the only co-purchaser of product 20 and bought it twice: the score is 2.
\<close>

theorem affinity_score_is_not_co_purchaser_count:
  "map cand_score (getProductAffinityRecommendations shopDb (purchasedProductIdsOf shopDb 1) (5 * 2)) = [2]
   \<and> map p_id (map cand_product
        (getProductAffinityRecommendations shopDb (purchasedProductIdsOf shopDb 1) (5 * 2))) = [20]
   \<and> coPurchasers shopDb (purchasedProductIdsOf shopDb 1) 20 = [2]"
  unfolding shop_purchased shop_affinity
  by (simp add: coPurchasers_def coBuyers_def shopDb_def)

section \<open>What a recompute can return\<close>

lemma collaborative_mem:
  assumes "r \<in> set (getCollaborativeFilteringRecommendations d customerId purchased limit)"
  shows "cand_product r \<in> set (products d)
       \<and> p_stock_quantity (cand_product r) > 0
       \<and> p_id (cand_product r) \<notin> set purchased"
proof -
  from assms obtain txs ty why where
    r: "r \<in> set (toCandidates (topCounts txs limit)
                   (inStockProducts d (map fst (topCounts txs limit))) ty why)"
    and txs: "\<forall>t \<in> set txs. notIn (t_product_id t) purchased"
    unfolding getCollaborativeFilteringRecommendations_def Let_def
    by (auto split: option.splits if_splits)
  from toCandidates_mem [OF r]
  obtain c where p: "cand_product r \<in> set (inStockProducts d (map fst (topCounts txs limit)))"
    and c: "(p_id (cand_product r), c) \<in> set (topCounts txs limit)"
    by blast
  from topCounts_mem [OF c] txs have "p_id (cand_product r) \<notin> set purchased"
    by (auto simp: notIn_def)
  with p show ?thesis by (simp add: inStockProducts_mem)
qed

lemma segment_mem:
  assumes "r \<in> set (getSegmentBasedRecommendations d customerId purchased limit)"
  shows "cand_product r \<in> set (products d)
       \<and> p_stock_quantity (cand_product r) > 0
       \<and> p_id (cand_product r) \<notin> set purchased"
proof -
  from assms obtain txs ty why where
    r: "r \<in> set (toCandidates (topCounts txs limit)
                   (inStockProducts d (map fst (topCounts txs limit))) ty why)"
    and txs: "\<forall>t \<in> set txs. notIn (t_product_id t) purchased"
    unfolding getSegmentBasedRecommendations_def Let_def
    by (auto split: option.splits if_splits)
  from toCandidates_mem [OF r]
  obtain c where p: "cand_product r \<in> set (inStockProducts d (map fst (topCounts txs limit)))"
    and c: "(p_id (cand_product r), c) \<in> set (topCounts txs limit)"
    by blast
  from topCounts_mem [OF c] txs have "p_id (cand_product r) \<notin> set purchased"
    by (auto simp: notIn_def)
  with p show ?thesis by (simp add: inStockProducts_mem)
qed

lemma mapSet_products:
  assumes "\<forall>kv \<in> set m. P (se_product (snd kv))" and "P (se_product e)"
  shows "\<forall>kv \<in> set (mapSet m k e). P (se_product (snd kv))"
  using assms by (auto simp: mapSet_def)

lemma mapModify_products:
  assumes "\<forall>kv \<in> set m. P (se_product (snd kv))" and "\<And>v. se_product (f v) = se_product v"
  shows "\<forall>kv \<in> set (mapModify m k f). P (se_product (snd kv))"
  using assms by (auto simp: mapModify_def)

lemma putAffinity_products:
  assumes "\<forall>kv \<in> set m. P (se_product (snd kv))" and "P (cand_product rec)"
  shows "\<forall>kv \<in> set (putAffinity w src m rec). P (se_product (snd kv))"
  unfolding putAffinity_def
  using assms by (intro mapSet_products) (simp_all add: firstEntry_def)

lemma putOther_products:
  assumes "\<forall>kv \<in> set m. P (se_product (snd kv))" and "P (cand_product rec)"
  shows "\<forall>kv \<in> set (putOther w src m rec). P (se_product (snd kv))"
proof (cases "mapHas m (p_id (cand_product rec))")
  case True
  then have "putOther w src m rec = mapModify m (p_id (cand_product rec)) (addEntry w src rec)"
    by (simp add: putOther_def)
  then show ?thesis
    using mapModify_products [OF assms(1), of "addEntry w src rec"] by (simp add: addEntry_def)
next
  case False
  then have "putOther w src m rec = mapSet m (p_id (cand_product rec)) (firstEntry w src rec)"
    by (simp add: putOther_def)
  then show ?thesis
    using mapSet_products [OF assms(1), of "firstEntry w src rec"] assms(2)
    by (simp add: firstEntry_def)
qed

lemma fold_putAffinity_products:
  assumes "\<forall>kv \<in> set m. P (se_product (snd kv))" and "\<forall>rec \<in> set xs. P (cand_product rec)"
  shows "\<forall>kv \<in> set (foldl (putAffinity w src) m xs). P (se_product (snd kv))"
  using assms
proof (induction xs arbitrary: m)
  case Nil
  then show ?case by simp
next
  case (Cons x xs)
  have "\<forall>kv \<in> set (putAffinity w src m x). P (se_product (snd kv))"
    using Cons.prems by (intro putAffinity_products) simp_all
  then show ?case using Cons.IH Cons.prems(2) by simp
qed

lemma fold_putOther_products:
  assumes "\<forall>kv \<in> set m. P (se_product (snd kv))" and "\<forall>rec \<in> set xs. P (cand_product rec)"
  shows "\<forall>kv \<in> set (foldl (putOther w src) m xs). P (se_product (snd kv))"
  using assms
proof (induction xs arbitrary: m)
  case Nil
  then show ?case by simp
next
  case (Cons x xs)
  have "\<forall>kv \<in> set (putOther w src m x). P (se_product (snd kv))"
    using Cons.prems by (intro putOther_products) simp_all
  then show ?case using Cons.IH Cons.prems(2) by simp
qed

lemma productScores_products:
  assumes "\<forall>rec \<in> set A. P (cand_product rec)"
      and "\<forall>rec \<in> set C. P (cand_product rec)"
      and "\<forall>rec \<in> set S. P (cand_product rec)"
  shows "\<forall>kv \<in> set (productScores A C S ws). P (se_product (snd kv))"
  unfolding productScores_def Let_def
  by (intro fold_putOther_products fold_putAffinity_products assms) simp

lemma combine_products:
  assumes "\<forall>rec \<in> set A. P (cand_product rec)"
      and "\<forall>rec \<in> set C. P (cand_product rec)"
      and "\<forall>rec \<in> set S. P (cand_product rec)"
      and "r \<in> set (combineRecommendations A C S ws)"
  shows "\<exists>p. rec_product r = Some p \<and> P p"
proof -
  from assms(4) obtain kv where kv: "kv \<in> set (productScores A C S ws)"
    and r: "r = toRecommendation (snd kv)"
    by (auto simp: combineRecommendations_def)
  from productScores_products [OF assms(1-3)] kv have "P (se_product (snd kv))" by blast
  with r show ?thesis by (simp add: toRecommendation_def)
qed

lemma sliceTo_subset: "set (sliceTo xs n) \<subseteq> set xs"
  by (simp add: sliceTo_def set_take_subset)

lemma recompute_mem:
  assumes "r \<in> set (recomputeRecommendations d customerId limit)"
  shows "\<exists>p. rec_product r = Some p \<and> (p \<in> set (products d) \<and> p_stock_quantity p > 0
            \<and> p_id p \<notin> set (purchasedProductIdsOf d customerId))"
proof -
  let ?ids = "purchasedProductIdsOf d customerId"
  let ?A = "getProductAffinityRecommendations d ?ids (limit * 2)"
  let ?C = "getCollaborativeFilteringRecommendations d customerId ?ids (limit * 2)"
  let ?S = "getSegmentBasedRecommendations d customerId ?ids (limit * 2)"
  let ?comb = "combineRecommendations ?A ?C ?S engineWeights"
  from assms have "r \<in> set (sliceTo ?comb limit)"
    by (simp only: recomputeRecommendations_def Let_def)
  then have r: "r \<in> set ?comb"
    using sliceTo_subset [of ?comb limit] by (rule rev_subsetD)
  have a: "\<forall>rec \<in> set ?A. cand_product rec \<in> set (products d)
              \<and> p_stock_quantity (cand_product rec) > 0 \<and> p_id (cand_product rec) \<notin> set ?ids"
  proof
    fix rec assume "rec \<in> set ?A"
    from affinity_mem [OF this]
    show "cand_product rec \<in> set (products d)
              \<and> p_stock_quantity (cand_product rec) > 0 \<and> p_id (cand_product rec) \<notin> set ?ids"
      by simp
  qed
  have c: "\<forall>rec \<in> set ?C. cand_product rec \<in> set (products d)
              \<and> p_stock_quantity (cand_product rec) > 0 \<and> p_id (cand_product rec) \<notin> set ?ids"
  proof
    fix rec assume "rec \<in> set ?C"
    from collaborative_mem [OF this]
    show "cand_product rec \<in> set (products d)
              \<and> p_stock_quantity (cand_product rec) > 0 \<and> p_id (cand_product rec) \<notin> set ?ids"
      by simp
  qed
  have s: "\<forall>rec \<in> set ?S. cand_product rec \<in> set (products d)
              \<and> p_stock_quantity (cand_product rec) > 0 \<and> p_id (cand_product rec) \<notin> set ?ids"
  proof
    fix rec assume "rec \<in> set ?S"
    from segment_mem [OF this]
    show "cand_product rec \<in> set (products d)
              \<and> p_stock_quantity (cand_product rec) > 0 \<and> p_id (cand_product rec) \<notin> set ?ids"
      by simp
  qed
  from a c s r show ?thesis
    by (rule combine_products
          [where P = "\<lambda>p. p \<in> set (products d) \<and> p_stock_quantity p > 0 \<and> p_id p \<notin> set ?ids"])
qed

lemma find_distinct_id:
  assumes "distinct (map p_id ps)" and "p \<in> set ps"
  shows "find (\<lambda>q. p_id q = p_id p) ps = Some p"
  using assms by (induction ps) (auto simp: rev_image_eqI)

lemma recompute_ok:
  assumes "distinct (map p_id (products d))"
  shows "list_all (recommendationOk d customerId) (recomputeRecommendations d customerId limit)"
proof -
  have "recommendationOk d customerId r"
    if "r \<in> set (recomputeRecommendations d customerId limit)" for r
  proof -
    from recompute_mem [OF that] obtain p where p: "rec_product r = Some p"
      "p \<in> set (products d)" "p_stock_quantity p > 0"
      "p_id p \<notin> set (purchasedProductIdsOf d customerId)"
      by blast
    from find_distinct_id [OF assms p(2)] p show ?thesis
      by (simp add: recommendationOk_def)
  qed
  then show ?thesis by (simp add: list_all_iff)
qed

lemma generate_on_miss:
  assumes "findCustomer d customerId = Some cu"
      and "snd (cacheService_get cs (generateCustomerKey customerId ''recommendations'') now True)
             \<in> {None, Some []}"
      and "getCachedRecommendations d customerId now = None"
  shows "snd (generatePersonalizedRecommendations (d, cs) now customerId limit) =
           Inr (recomputeRecommendations d customerId limit)"
proof -
  obtain cs1 res where g: "cacheService_get cs (generateCustomerKey customerId ''recommendations'') now True
                            = (cs1, res)"
    by (cases "cacheService_get cs (generateCustomerKey customerId ''recommendations'') now True")
  with assms(2) have "res = None \<or> res = Some []" by simp
  then show ?thesis
    using assms(1,3) g
    by (auto simp: generatePersonalizedRecommendations_def Let_def)
qed

section \<open>Recommendations and the state of the store\<close>

text \<open>
  Claim C3, as amended. When the call finds no non-empty list in the cache and no persisted
  row of the last twelve hours, it returns the recomputed list, and no entry of that list
  refers to a product the customer has bought in a completed transaction or to a product
  whose stock is zero (product ids are the primary key of the product table). A list taken
  from the cache or from the persisted rows is returned as it was stored.
\<close>

theorem recompute_excludes_purchased_and_out_of_stock:
  assumes "findCustomer d customerId = Some cu"
      and "distinct (map p_id (products d))"
      and "snd (cacheService_get cs (generateCustomerKey customerId ''recommendations'') now True)
             \<in> {None, Some []}"
      and "getCachedRecommendations d customerId now = None"
  shows "snd (generatePersonalizedRecommendations (d, cs) now customerId limit) =
           Inr (recomputeRecommendations d customerId limit)
       \<and> list_all (recommendationOk d customerId) (recomputeRecommendations d customerId limit)"
  using generate_on_miss [OF assms(1,3,4)] recompute_ok [OF assms(2)] by simp

lemma shop_key: "generateCustomerKey 1 ''recommendations'' = ''customer:1:recommendations''"
  by (simp add: generateCustomerKey_def showInt_def showNat.simps)

lemma shop_recompute: "recomputeRecommendations shopDb 1 5 = [entry20]"
  unfolding recomputeRecommendations_def Let_def shop_purchased shop_affinity
  by (simp add: getCollaborativeFilteringRecommendations_def getSegmentBasedRecommendations_def
      findAnalytics_def shopDb_def combineRecommendations_def productScores_def putAffinity_def
      mapSet_def mapHas_def firstEntry_def normalizeScore_def engineWeights_def toRecommendation_def
      toFixed2_def sliceTo_def entry20_def)

lemma shop_first_miss:
  "snd (cacheService_get emptyCache ''customer:1:recommendations'' 5000 True) = None"
  by (simp add: cacheService_get_def emptyCache_def memoryCache_get_def memoryCache_flushAll_def)

lemma shop_no_rows: "getCachedRecommendations shopDb 1 5000 = None"
  by (simp add: getCachedRecommendations_def shopDb_def Let_def)

theorem recompute_excludes_purchased_and_out_of_stock_witness:
  "findCustomer shopDb 1 = Some \<lparr> c_id = 1, c_loyalty_tier = Some ''bronze'' \<rparr>
   \<and> distinct (map p_id (products shopDb))
   \<and> snd (cacheService_get emptyCache (generateCustomerKey 1 ''recommendations'') 5000 True)
        \<in> {None, Some []}
   \<and> getCachedRecommendations shopDb 1 5000 = None
   \<and> snd (generatePersonalizedRecommendations (shopDb, emptyCache) 5000 1 5) = Inr [entry20]
   \<and> list_all (recommendationOk shopDb 1) [entry20]"
proof -
  have h1: "findCustomer shopDb 1 = Some \<lparr> c_id = 1, c_loyalty_tier = Some ''bronze'' \<rparr>"
    by (simp add: findCustomer_def shopDb_def)
  have h2: "distinct (map p_id (products shopDb))" by (simp add: shopDb_def)
  have h3: "snd (cacheService_get emptyCache (generateCustomerKey 1 ''recommendations'') 5000 True)
              \<in> {None, Some []}"
    unfolding shop_key shop_first_miss by simp
  note h4 = shop_no_rows
  from recompute_excludes_purchased_and_out_of_stock [OF h1 h2 h3 h4, of 5] h1 h2 h3 h4
  show ?thesis unfolding shop_recompute by simp
qed

lemma shop_first_call_memory:
  "memoryCache (snd shopAfterFirstCall) ''customer:1:recommendations'' =
     Some \<lparr> me_t = 43205000, me_v = [entry20] \<rparr>"
  unfolding shopAfterFirstCall_def generatePersonalizedRecommendations_def
  by (simp add: findCustomer_def shopDb_def shop_key shop_recompute [unfolded shopDb_def]
      shop_no_rows [unfolded shopDb_def] Let_def
      cacheService_get_def emptyCache_def memoryCache_get_def memoryCache_flushAll_def
      cacheService_set_def memoryCache_set_def)

lemma shop_first_call_db:
  "customers (fst shopAfterFirstCall) = customers shopDb
   \<and> transactions (fst shopAfterFirstCall) = transactions shopDb"
  unfolding shopAfterFirstCall_def generatePersonalizedRecommendations_def
  by (simp add: findCustomer_def shopDb_def shop_key shop_recompute [unfolded shopDb_def]
      shop_no_rows [unfolded shopDb_def] Let_def cacheRecommendations_def
      cacheService_get_def emptyCache_def memoryCache_get_def memoryCache_flushAll_def
      split: prod.splits)

lemma generate_memory_hit:
  assumes "findCustomer d customerId = Some cu"
      and "memoryCache cs (generateCustomerKey customerId ''recommendations'') =
             Some \<lparr> me_t = t, me_v = c # cached \<rparr>"
      and "of_int now \<le> t"
  shows "snd (generatePersonalizedRecommendations (d, cs) now customerId limit) =
           Inr (sliceTo (c # cached) limit)"
  using assms
  by (simp add: generatePersonalizedRecommendations_def cacheService_get_def memoryCache_get_def
      Let_def)

text \<open>
  Claim C3 as stated covers every resolution path. In the shop the first call caches the
  entry for product 20; then customer 1 buys the last piece. The call one hour later
  returns the cached entry: a product the customer has bought and whose stock is zero.
\<close>

theorem cached_entry_for_purchased_sold_out_product:
  "snd (generatePersonalizedRecommendations shopAfterPurchase 3605000 1 5) = Inr [entry20]
   \<and> rec_product entry20 = Some \<lparr> p_id = 20, p_stock_quantity = 1 \<rparr>
   \<and> purchasedProductIdsOf (fst shopAfterPurchase) 1 = [10, 20]
   \<and> products (fst shopAfterPurchase) =
        [\<lparr> p_id = 10, p_stock_quantity = 5 \<rparr>, \<lparr> p_id = 20, p_stock_quantity = 0 \<rparr>]
   \<and> \<not> list_all (recommendationOk (fst shopAfterPurchase) 1) [entry20]"
proof -
  have cu: "findCustomer (fst shopAfterPurchase) 1 = Some \<lparr> c_id = 1, c_loyalty_tier = Some ''bronze'' \<rparr>"
    by (simp add: shopAfterPurchase_def recordLastPiece_def findCustomer_def shop_first_call_db)
       (simp add: shopDb_def)
  have mem: "memoryCache (snd shopAfterPurchase) (generateCustomerKey 1 ''recommendations'') =
               Some \<lparr> me_t = 43205000, me_v = entry20 # [] \<rparr>"
    by (simp add: shopAfterPurchase_def shop_key shop_first_call_memory)
  have ret: "snd (generatePersonalizedRecommendations shopAfterPurchase 3605000 1 5) = Inr [entry20]"
    using generate_memory_hit [OF cu mem, of 3605000 5]
    by (simp add: sliceTo_def)
  have ids: "purchasedProductIdsOf (fst shopAfterPurchase) 1 = [10, 20]"
    by (simp add: shopAfterPurchase_def recordLastPiece_def purchasedProductIdsOf_def
        completedOf_def shop_first_call_db)
       (simp add: shopDb_def)
  have ps: "products (fst shopAfterPurchase) =
        [\<lparr> p_id = 10, p_stock_quantity = 5 \<rparr>, \<lparr> p_id = 20, p_stock_quantity = 0 \<rparr>]"
    by (simp add: shopAfterPurchase_def recordLastPiece_def)
  have "\<not> list_all (recommendationOk (fst shopAfterPurchase) 1) [entry20]"
    by (simp add: recommendationOk_def ids entry20_def)
  with ret ids ps show ?thesis by (simp add: entry20_def)
qed

lemma combine_nothing: "combineRecommendations [] [] [] ws = []"
  by (simp add: combineRecommendations_def productScores_def)

lemma recompute_empty:
  assumes "completedOf d customerId = []" and "findAnalytics d customerId = None"
  shows "recomputeRecommendations d customerId limit = []"
proof -
  have ids: "purchasedProductIdsOf d customerId = []"
    using assms(1) by (simp add: purchasedProductIdsOf_def)
  have a: "getProductAffinityRecommendations d [] (limit * 2) = []"
    by (simp add: getProductAffinityRecommendations_def)
  have c: "getCollaborativeFilteringRecommendations d customerId [] (limit * 2) = []"
    using assms(2) by (simp add: getCollaborativeFilteringRecommendations_def)
  have s: "getSegmentBasedRecommendations d customerId [] (limit * 2) = []"
    using assms(2) by (simp add: getSegmentBasedRecommendations_def)
  show ?thesis
    unfolding recomputeRecommendations_def Let_def ids a c s combine_nothing
    by (simp add: sliceTo_def)
qed

text \<open>
  Claim C9, as amended. An existing customer without completed purchase and without
  analytics row (hence without segment), for whom neither the cache nor the persisted rows
  of the last twelve hours hold a non-empty list, gets the empty list: none of the three
  sub-algorithms contributes a candidate.
\<close>

theorem no_history_no_analytics_gives_empty_list:
  assumes "findCustomer d customerId = Some cu"
      and "completedOf d customerId = []"
      and "findAnalytics d customerId = None"
      and "snd (cacheService_get cs (generateCustomerKey customerId ''recommendations'') now True)
             \<in> {None, Some []}"
      and "getCachedRecommendations d customerId now = None"
  shows "snd (generatePersonalizedRecommendations (d, cs) now customerId limit) = Inr []"
  using generate_on_miss [OF assms(1,4,5)] recompute_empty [OF assms(2,3)] by simp

theorem no_history_no_analytics_gives_empty_list_witness:
  "findCustomer newCustomerDb 1 = Some \<lparr> c_id = 1, c_loyalty_tier = Some ''bronze'' \<rparr>
   \<and> completedOf newCustomerDb 1 = []
   \<and> findAnalytics newCustomerDb 1 = None
   \<and> snd (cacheService_get emptyCache (generateCustomerKey 1 ''recommendations'') 5000 True)
        \<in> {None, Some []}
   \<and> getCachedRecommendations newCustomerDb 1 5000 = None
   \<and> snd (generatePersonalizedRecommendations (newCustomerDb, emptyCache) 5000 1 5) = Inr []"
proof -
  have h1: "findCustomer newCustomerDb 1 = Some \<lparr> c_id = 1, c_loyalty_tier = Some ''bronze'' \<rparr>"
    by (simp add: findCustomer_def newCustomerDb_def)
  have h2: "completedOf newCustomerDb 1 = []"
    by (simp add: completedOf_def newCustomerDb_def)
  have h3: "findAnalytics newCustomerDb 1 = None"
    by (simp add: findAnalytics_def newCustomerDb_def)
  have h4: "snd (cacheService_get emptyCache (generateCustomerKey 1 ''recommendations'') 5000 True)
              \<in> {None, Some []}"
    unfolding shop_key shop_first_miss by simp
  have h5: "getCachedRecommendations newCustomerDb 1 5000 = None"
    by (simp add: getCachedRecommendations_def newCustomerDb_def Let_def)
  from no_history_no_analytics_gives_empty_list [OF h1 h2 h3 h4 h5, of 5] h1 h2 h3 h4 h5
  show ?thesis by simp
qed

text \<open>
  Claim C9 as stated has no condition on the cache. In the shop the first call caches the
  entry for product 20; then the only purchase of customer 1 is refunded. One hour later
  the customer has no completed purchase and no segment, and the call returns the cached
  entry.
\<close>

theorem cached_list_for_customer_without_history:
  "findCustomer (fst shopAfterRefund) 1 = Some \<lparr> c_id = 1, c_loyalty_tier = Some ''bronze'' \<rparr>
   \<and> completedOf (fst shopAfterRefund) 1 = []
   \<and> findAnalytics (fst shopAfterRefund) 1 = None
   \<and> snd (generatePersonalizedRecommendations shopAfterRefund 3605000 1 5) = Inr [entry20]"
proof -
  have cu: "findCustomer (fst shopAfterRefund) 1 = Some \<lparr> c_id = 1, c_loyalty_tier = Some ''bronze'' \<rparr>"
    by (simp add: shopAfterRefund_def refundFirst_def findCustomer_def shop_first_call_db)
       (simp add: shopDb_def)
  have mem: "memoryCache (snd shopAfterRefund) (generateCustomerKey 1 ''recommendations'') =
               Some \<lparr> me_t = 43205000, me_v = entry20 # [] \<rparr>"
    by (simp add: shopAfterRefund_def shop_key shop_first_call_memory)
  have ret: "snd (generatePersonalizedRecommendations shopAfterRefund 3605000 1 5) = Inr [entry20]"
    using generate_memory_hit [OF cu mem, of 3605000 5]
    by (simp add: sliceTo_def)
  have none: "completedOf (fst shopAfterRefund) 1 = []"
    by (simp add: shopAfterRefund_def refundFirst_def completedOf_def shop_first_call_db)
       (simp add: shopDb_def)
  have an: "findAnalytics (fst shopAfterRefund) 1 = None"
    unfolding shopAfterRefund_def shopAfterFirstCall_def generatePersonalizedRecommendations_def
    by (simp add: findCustomer_def shopDb_def shop_key shop_recompute [unfolded shopDb_def]
      shop_no_rows [unfolded shopDb_def] Let_def cacheRecommendations_def refundFirst_def
      findAnalytics_def
      cacheService_get_def emptyCache_def memoryCache_get_def memoryCache_flushAll_def
      split: prod.splits)
  from cu none an ret show ?thesis by simp
qed

text \<open>
  The amended claim speaks of customers without analytics row. For a row without segment
  the two segment-driven stages differ: the collaborative stage returns nothing, the
  segment stage takes the customers without segment as the cohort.
\<close>

lemma stages_on_row_without_segment:
  "getCollaborativeFilteringRecommendations unsegmentedDb 3 [] 10 = []
   \<and> map cand_product (getSegmentBasedRecommendations unsegmentedDb 3 [] 10) =
       [\<lparr> p_id = 10, p_stock_quantity = 5 \<rparr>]"
  by (simp add: getCollaborativeFilteringRecommendations_def getSegmentBasedRecommendations_def
      findAnalytics_def unsegmentedDb_def newAnalyticsRow_def topCounts_def groupCount_def
      notIn_def inStockProducts_def toCandidates_def countOf_def Let_def)

section \<open>The combiner\<close>

lemma keys_mapSet: "fst ` set (mapSet m k e) = insert k (fst ` set m)"
  by (auto simp: mapSet_def mapHas_def image_iff split: if_splits) force+

lemma keys_mapModify: "fst ` set (mapModify m k f) = fst ` set m"
  by (auto simp: mapModify_def image_iff split: if_splits) force+

lemma map_of_mapSet: "map_of (mapSet m k e) = (map_of m)(k \<mapsto> e)"
proof (cases "mapHas m k")
  case True
  have "map_of (map (\<lambda>(k', v). if k' = k then (k', e) else (k', v)) m) j =
        (if j = k then (if k \<in> fst ` set m then Some e else None) else map_of m j)" for j
    by (induction m) (force simp: image_iff)+
  with True show ?thesis
    by (auto simp: mapSet_def mapHas_def fun_eq_iff)
next
  case False
  then have "map_of m k = None"
    by (simp add: mapHas_def map_of_eq_None_iff)
  with False show ?thesis
    by (auto simp: mapSet_def fun_eq_iff map_add_def split: option.splits)
qed

lemma map_of_mapModify:
  "map_of (mapModify m k f) j =
     (if j = k then map_option f (map_of m k) else map_of m j)"
  by (induction m) (auto simp: mapModify_def)

lemma mapHas_map_of: "mapHas m k \<longleftrightarrow> map_of m k \<noteq> None"
  by (simp add: mapHas_def map_of_eq_None_iff)

lemma combinedScore_putAffinity:
  "combinedScore (putAffinity w src m rec) p =
     (if p_id (cand_product rec) = p then normalizeScore (cand_score rec) src * w
      else combinedScore m p)"
  by (simp add: combinedScore_def putAffinity_def map_of_mapSet firstEntry_def)

lemma combinedScore_putOther:
  "combinedScore (putOther w src m rec) p =
     (if p_id (cand_product rec) = p
      then combinedScore m p + normalizeScore (cand_score rec) src * w
      else combinedScore m p)"
proof (cases "mapHas m (p_id (cand_product rec))")
  case True
  then obtain e where "map_of m (p_id (cand_product rec)) = Some e"
    by (auto simp: mapHas_map_of)
  with True show ?thesis
    by (auto simp: combinedScore_def putOther_def map_of_mapModify addEntry_def)
next
  case False
  then have "map_of m (p_id (cand_product rec)) = None"
    by (simp add: mapHas_map_of)
  with False show ?thesis
    by (auto simp: combinedScore_def putOther_def map_of_mapSet firstEntry_def)
qed

lemma fold_putOther_score:
  "combinedScore (foldl (putOther w src) m xs) p = combinedScore m p + contribution w src xs p"
proof (induction xs arbitrary: m)
  case Nil
  then show ?case by (simp add: contribution_def)
next
  case (Cons x xs)
  show ?case
    by (simp add: Cons.IH combinedScore_putOther contribution_def)
qed

lemma fold_putAffinity_absent:
  assumes "p \<notin> productIdsOf xs"
  shows "combinedScore (foldl (putAffinity w src) m xs) p = combinedScore m p"
  using assms
proof (induction xs arbitrary: m)
  case Nil
  then show ?case by simp
next
  case (Cons x xs)
  then show ?case
    by (simp add: combinedScore_putAffinity productIdsOf_def)
qed

lemma normalizeScore_nonneg:
  assumes "rec \<in> set src"
  shows "0 \<le> normalizeScore (cand_score rec) src"
proof -
  let ?scores = "map cand_score src"
  have mem: "cand_score rec \<in> set ?scores" using assms by simp
  have lo: "Min (set ?scores) \<le> cand_score rec" using mem by (intro Min_le) simp_all
  have hi: "cand_score rec \<le> Max (set ?scores)" using mem by (intro Max_ge) simp_all
  show ?thesis
  proof (cases "Max (set ?scores) = Min (set ?scores)")
    case True
    then show ?thesis by (simp add: normalizeScore_def Let_def)
  next
    case False
    with lo hi have "0 < Max (set ?scores) - Min (set ?scores)" by simp
    with lo have "0 \<le> (cand_score rec - Min (set ?scores)) / (Max (set ?scores) - Min (set ?scores))"
      by simp
    with False show ?thesis by (simp add: normalizeScore_def Let_def)
  qed
qed

lemma fold_putAffinity_nonneg:
  assumes "0 \<le> w" and "set xs \<subseteq> set src" and "0 \<le> combinedScore m p"
  shows "0 \<le> combinedScore (foldl (putAffinity w src) m xs) p"
  using assms(2,3)
proof (induction xs arbitrary: m)
  case Nil
  then show ?case by simp
next
  case (Cons x xs)
  have "0 \<le> normalizeScore (cand_score x) src * w"
    using Cons.prems(1) assms(1) by (simp add: normalizeScore_nonneg)
  then have "0 \<le> combinedScore (putAffinity w src m x) p"
    using Cons.prems(2) by (simp add: combinedScore_putAffinity)
  then show ?case using Cons.IH Cons.prems(1) by simp
qed

lemma contribution_nonneg:
  assumes "0 \<le> w" and "set xs \<subseteq> set src"
  shows "0 \<le> contribution w src xs p"
  unfolding contribution_def
  using assms by (intro sum_list_nonneg) (auto simp: normalizeScore_nonneg)

lemma contribution_absent:
  assumes "p \<notin> productIdsOf xs"
  shows "contribution w src xs p = 0"
proof -
  have "filter (\<lambda>rec. p_id (cand_product rec) = p) xs = []"
    using assms by (auto simp: productIdsOf_def filter_empty_conv)
  then show ?thesis by (simp add: contribution_def)
qed

lemma productScores_score:
  "combinedScore (productScores A C S ws) p =
     combinedScore (foldl (putAffinity (w_affinity ws) A) [] A) p
     + contribution (w_collaborative ws) C C p + contribution (w_segment ws) S S p"
  by (simp add: productScores_def Let_def fold_putOther_score)

lemma affinity_part_mono:
  assumes "0 \<le> w" and "A' = A \<or> p \<notin> productIdsOf A'"
  shows "combinedScore (foldl (putAffinity w A') [] A') p
           \<le> combinedScore (foldl (putAffinity w A) [] A) p"
proof (cases "A' = A")
  case True
  then show ?thesis by simp
next
  case False
  with assms(2) have "p \<notin> productIdsOf A'" by simp
  then have "combinedScore (foldl (putAffinity w A') [] A') p = combinedScore [] p"
    by (rule fold_putAffinity_absent)
  moreover have "0 \<le> combinedScore (foldl (putAffinity w A) [] A) p"
    using assms(1) by (intro fold_putAffinity_nonneg) (simp_all add: combinedScore_def)
  ultimately show ?thesis by (simp add: combinedScore_def)
qed

lemma contribution_mono:
  assumes "0 \<le> w" and "C' = C \<or> p \<notin> productIdsOf C'"
  shows "contribution w C' C' p \<le> contribution w C C p"
proof (cases "C' = C")
  case True
  then show ?thesis by simp
next
  case False
  with assms(2) have "contribution w C' C' p = 0" by (simp add: contribution_absent)
  moreover have "0 \<le> contribution w C C p"
    using assms(1) by (intro contribution_nonneg) simp_all
  ultimately show ?thesis by simp
qed

lemma productScores_mono:
  assumes "A' = A \<or> p \<notin> productIdsOf A'"
      and "C' = C \<or> p \<notin> productIdsOf C'"
      and "S' = S \<or> p \<notin> productIdsOf S'"
  shows "combinedScore (productScores A' C' S' engineWeights) p
           \<le> combinedScore (productScores A C S engineWeights) p"
proof -
  have w: "0 \<le> w_affinity engineWeights" "0 \<le> w_collaborative engineWeights"
    "0 \<le> w_segment engineWeights"
    by (simp_all add: engineWeights_def)
  from affinity_part_mono [OF w(1) assms(1)] contribution_mono [OF w(2) assms(2)]
    contribution_mono [OF w(3) assms(3)]
  show ?thesis unfolding productScores_score by linarith
qed

section \<open>Combined scores and the number of sources\<close>

lemma fst_mapSet_present:
  "map fst (map (\<lambda>(k', v). if k' = k then (k', e) else (k', v)) m) = map fst m"
  by (induction m) auto

lemma keyed_mapSet:
  assumes "keyed m" and "k = p_id (se_product e)"
  shows "keyed (mapSet m k e)"
proof (cases "mapHas m k")
  case True
  then have eq: "mapSet m k e = map (\<lambda>(k', v). if k' = k then (k', e) else (k', v)) m"
    by (simp add: mapSet_def)
  have "list_all (\<lambda>kv. fst kv = p_id (se_product (snd kv)))
          (map (\<lambda>(k', v). if k' = k then (k', e) else (k', v)) m)"
    using assms by (auto simp: keyed_def list_all_iff)
  with assms(1) show ?thesis
    unfolding eq keyed_def fst_mapSet_present by simp
next
  case False
  then have eq: "mapSet m k e = m @ [(k, e)]" by (simp add: mapSet_def)
  from False assms show ?thesis
    unfolding eq keyed_def mapHas_def by simp
qed

lemma fst_mapModify: "map fst (mapModify m k f) = map fst m"
  by (induction m) (auto simp: mapModify_def)

lemma keyed_mapModify:
  assumes "keyed m" and "\<And>v. se_product (f v) = se_product v"
  shows "keyed (mapModify m k f)"
proof -
  have "list_all (\<lambda>kv. fst kv = p_id (se_product (snd kv))) (mapModify m k f)"
    using assms by (auto simp: keyed_def list_all_iff mapModify_def)
  with assms(1) show ?thesis
    unfolding keyed_def fst_mapModify by simp
qed

lemma keyed_putAffinity: "keyed m \<Longrightarrow> keyed (putAffinity w src m rec)"
  unfolding putAffinity_def by (rule keyed_mapSet) (simp_all add: firstEntry_def)

lemma keyed_putOther:
  assumes "keyed m"
  shows "keyed (putOther w src m rec)"
proof (cases "mapHas m (p_id (cand_product rec))")
  case True
  then have "putOther w src m rec = mapModify m (p_id (cand_product rec)) (addEntry w src rec)"
    by (simp add: putOther_def)
  with keyed_mapModify [OF assms, of "addEntry w src rec"] show ?thesis
    by (simp add: addEntry_def)
next
  case False
  then have "putOther w src m rec = mapSet m (p_id (cand_product rec)) (firstEntry w src rec)"
    by (simp add: putOther_def)
  with keyed_mapSet [OF assms, of "p_id (cand_product rec)" "firstEntry w src rec"] show ?thesis
    by (simp add: firstEntry_def)
qed

lemma keyed_fold_putAffinity: "keyed m \<Longrightarrow> keyed (foldl (putAffinity w src) m xs)"
  by (induction xs arbitrary: m) (simp_all add: keyed_putAffinity)

lemma keyed_fold_putOther: "keyed m \<Longrightarrow> keyed (foldl (putOther w src) m xs)"
  by (induction xs arbitrary: m) (simp_all add: keyed_putOther)

lemma keyed_productScores: "keyed (productScores A C S ws)"
  unfolding productScores_def Let_def
  by (intro keyed_fold_putOther keyed_fold_putAffinity) (simp add: keyed_def)

lemma keys_putAffinity:
  "fst ` set (putAffinity w src m rec) = insert (p_id (cand_product rec)) (fst ` set m)"
  by (simp add: putAffinity_def keys_mapSet)

lemma keys_putOther:
  "fst ` set (putOther w src m rec) = insert (p_id (cand_product rec)) (fst ` set m)"
proof (cases "mapHas m (p_id (cand_product rec))")
  case True
  then show ?thesis
    by (auto simp: putOther_def keys_mapModify mapHas_def)
next
  case False
  then show ?thesis
    by (simp add: putOther_def keys_mapSet)
qed

lemma keys_fold_putAffinity:
  "fst ` set (foldl (putAffinity w src) m xs) = fst ` set m \<union> productIdsOf xs"
  by (induction xs arbitrary: m) (auto simp: keys_putAffinity productIdsOf_def)

lemma keys_fold_putOther:
  "fst ` set (foldl (putOther w src) m xs) = fst ` set m \<union> productIdsOf xs"
  by (induction xs arbitrary: m) (auto simp: keys_putOther productIdsOf_def)

lemma keys_productScores:
  "fst ` set (productScores A C S ws) = productIdsOf A \<union> productIdsOf C \<union> productIdsOf S"
  by (simp add: productScores_def Let_def keys_fold_putOther keys_fold_putAffinity)

lemma keyed_entry:
  assumes "keyed m" and "(k, e) \<in> set m"
  shows "k = p_id (se_product e) \<and> combinedScore m k = totalScore e"
proof -
  from assms have "map_of m k = Some e"
    by (intro map_of_is_SomeI) (simp_all add: keyed_def)
  moreover from assms have "k = p_id (se_product e)"
    by (auto simp: keyed_def list_all_iff)
  ultimately show ?thesis by (simp add: combinedScore_def)
qed

lemma combine_set:
  "set (combineRecommendations A C S ws) =
     (\<lambda>kv. toRecommendation (snd kv)) ` set (productScores A C S ws)"
  by (simp add: combineRecommendations_def)

lemma combine_entry:
  assumes "r \<in> set (combineRecommendations A C S ws)"
  shows "\<exists>k. map_option p_id (rec_product r) = Some k
           \<and> k \<in> productIdsOf A \<union> productIdsOf C \<union> productIdsOf S
           \<and> recommendation_score r = toFixed2 (combinedScore (productScores A C S ws) k * 100)"
proof -
  from assms obtain k e where ke: "(k, e) \<in> set (productScores A C S ws)"
    and r: "r = toRecommendation e"
    unfolding combine_set by auto
  note ke' = keyed_entry [OF keyed_productScores ke]
  have k: "k = p_id (se_product e)" using ke' by (rule conjunct1)
  have s: "combinedScore (productScores A C S ws) k = totalScore e" using ke' by (rule conjunct2)
  have "k \<in> fst ` set (productScores A C S ws)" using ke by force
  then have "k \<in> productIdsOf A \<union> productIdsOf C \<union> productIdsOf S"
    unfolding keys_productScores .
  with k s r show ?thesis by (simp add: toRecommendation_def)
qed

lemma combine_has_entry:
  assumes "k \<in> productIdsOf A \<union> productIdsOf C \<union> productIdsOf S"
  shows "\<exists>r \<in> set (combineRecommendations A C S ws).
           map_option p_id (rec_product r) = Some k
           \<and> recommendation_score r = toFixed2 (combinedScore (productScores A C S ws) k * 100)"
proof -
  from assms have "k \<in> fst ` set (productScores A C S ws)"
    unfolding keys_productScores .
  then obtain e where ke: "(k, e) \<in> set (productScores A C S ws)" by auto
  note ke' = keyed_entry [OF keyed_productScores ke]
  have k: "k = p_id (se_product e)" using ke' by (rule conjunct1)
  have s: "combinedScore (productScores A C S ws) k = totalScore e" using ke' by (rule conjunct2)
  have "toRecommendation e \<in> set (combineRecommendations A C S ws)"
    unfolding combine_set using ke by force
  moreover have "map_option p_id (rec_product (toRecommendation e)) = Some k"
    using k by (simp add: toRecommendation_def)
  moreover have "recommendation_score (toRecommendation e) =
                   toFixed2 (combinedScore (productScores A C S ws) k * 100)"
    using s by (simp add: toRecommendation_def)
  ultimately show ?thesis by blast
qed

lemma toFixed2_mono:
  assumes "x \<le> y"
  shows "toFixed2 x \<le> toFixed2 y"
proof -
  let ?r = "\<lambda>a :: real. real_of_int \<lfloor>a * 100 + 1 / 2\<rfloor> / 100"
  have up: "?r a \<le> ?r b" if "a \<le> b" for a b :: real
  proof -
    from that have "a * 100 + 1 / 2 \<le> b * 100 + 1 / 2" by simp
    then have "\<lfloor>a * 100 + 1 / 2\<rfloor> \<le> \<lfloor>b * 100 + 1 / 2\<rfloor>" by (rule floor_mono)
    then have "real_of_int \<lfloor>a * 100 + 1 / 2\<rfloor> \<le> real_of_int \<lfloor>b * 100 + 1 / 2\<rfloor>"
      by (simp only: of_int_le_iff)
    then show ?thesis by (rule divide_right_mono) simp
  qed
  have nonneg: "0 \<le> ?r a" if "0 \<le> a" for a :: real
  proof -
    from that have "(0::real) \<le> a * 100 + 1 / 2" by simp
    then have "0 \<le> \<lfloor>a * 100 + 1 / 2\<rfloor>" by (simp only: zero_le_floor of_int_0)
    then have "0 \<le> real_of_int \<lfloor>a * 100 + 1 / 2\<rfloor>" by (simp only: of_int_0_le_iff)
    then show ?thesis by (rule divide_nonneg_nonneg) simp
  qed
  have pos: "toFixed2 a = ?r a" if "0 \<le> a" for a
    using that unfolding toFixed2_def by (simp only: not_less [symmetric] if_False)
  have neg: "toFixed2 a = - ?r (- a)" if "a < 0" for a
    using that unfolding toFixed2_def by (simp only: if_True)
  consider "0 \<le> x" | "x < 0" "0 \<le> y" | "y < 0" using assms by linarith
  then show ?thesis
  proof cases
    case 1
    with assms have "0 \<le> y" by simp
    with 1 up [OF assms] show ?thesis by (simp only: pos)
  next
    case 2
    have "0 \<le> ?r (- x)" using 2(1) by (intro nonneg) simp
    moreover have "0 \<le> ?r y" using 2(2) by (rule nonneg)
    ultimately have "- ?r (- x) \<le> ?r y" by linarith
    then show ?thesis using 2 by (simp only: pos neg)
  next
    case 3
    with assms have x: "x < 0" by simp
    have "?r (- y) \<le> ?r (- x)" using assms by (intro up) simp
    then have "- ?r (- x) \<le> - ?r (- y)" by (simp only: neg_le_iff_le)
    then show ?thesis using 3 x by (simp only: neg)
  qed
qed

lemma combine_sorted:
  "sorted_wrt (\<lambda>r s. recommendation_score s \<le> recommendation_score r)
     (combineRecommendations A C S ws)"
proof -
  have "sorted (map (\<lambda>r. - recommendation_score r) (combineRecommendations A C S ws))"
    unfolding combineRecommendations_def by (rule sorted_sort_key)
  then show ?thesis
    by (simp add: sorted_wrt_map sorted_wrt_iff_nth_less)
qed

text \<open>
  Claim C6. With the weights 0.4, 0.3 and 0.3, take a product \<open>p\<close> and two runs of the
  combiner: the one with the lists \<open>A\<close>, \<open>C\<close>, \<open>S\<close>, and one in which every list is
  either the same (so \<open>p\<close> keeps its normalized score there) or does not contain \<open>p\<close>.
  If \<open>p\<close> has an entry in the second run, in particular when it appears in only one of
  the lists, then it has an entry in the first run, and its score there is at least the
  score of the second run. The output is ordered by descending score, so the larger score
  cannot rank lower.
\<close>

theorem combined_score_monotone_in_sources:
  assumes "A' = A \<or> p \<notin> productIdsOf A'"
      and "C' = C \<or> p \<notin> productIdsOf C'"
      and "S' = S \<or> p \<notin> productIdsOf S'"
      and "r' \<in> set (combineRecommendations A' C' S' engineWeights)"
      and "map_option p_id (rec_product r') = Some p"
  shows "(\<exists>r \<in> set (combineRecommendations A C S engineWeights).
            map_option p_id (rec_product r) = Some p
            \<and> recommendation_score r' \<le> recommendation_score r)
       \<and> sorted_wrt (\<lambda>r s. recommendation_score s \<le> recommendation_score r)
            (combineRecommendations A C S engineWeights)"
proof -
  from combine_entry [OF assms(4)] assms(5)
  have in': "p \<in> productIdsOf A' \<union> productIdsOf C' \<union> productIdsOf S'"
    and s': "recommendation_score r' =
               toFixed2 (combinedScore (productScores A' C' S' engineWeights) p * 100)"
    by auto
  from in' assms(1-3) have "p \<in> productIdsOf A \<union> productIdsOf C \<union> productIdsOf S"
    by auto
  from combine_has_entry [OF this, of engineWeights]
  obtain r where r: "r \<in> set (combineRecommendations A C S engineWeights)"
    and rp: "map_option p_id (rec_product r) = Some p"
    and s: "recommendation_score r =
              toFixed2 (combinedScore (productScores A C S engineWeights) p * 100)"
    by blast
  have "combinedScore (productScores A' C' S' engineWeights) p * 100
          \<le> combinedScore (productScores A C S engineWeights) p * 100"
    using productScores_mono [OF assms(1-3)] by simp
  then have "recommendation_score r' \<le> recommendation_score r"
    unfolding s s' by (rule toFixed2_mono)
  with r rp combine_sorted show ?thesis by blast
qed

lemma affinity_only:
  "combineRecommendations affinityList [] [] engineWeights =
     [\<lparr> rec_product = Some \<lparr> p_id = 20, p_stock_quantity = 1 \<rparr>, recommendation_score = 40,
        recommendation_types = Some [''affinity''], reasons = Some [''affinity''],
        recommendation_type = None, reason = None \<rparr>,
      \<lparr> rec_product = Some \<lparr> p_id = 30, p_stock_quantity = 1 \<rparr>, recommendation_score = 0,
        recommendation_types = Some [''affinity''], reasons = Some [''affinity''],
        recommendation_type = None, reason = None \<rparr>]"
  by (simp add: combineRecommendations_def productScores_def putAffinity_def affinityList_def
      cand_def mapSet_def mapHas_def firstEntry_def normalizeScore_def engineWeights_def
      toRecommendation_def toFixed2_def)

text \<open>Product 20 in the affinity list only (score 40), and in all three lists.\<close>

theorem combined_score_monotone_in_sources_witness:
  "20 \<notin> productIdsOf []
   \<and> hd (combineRecommendations affinityList [] [] engineWeights)
        \<in> set (combineRecommendations affinityList [] [] engineWeights)
   \<and> map_option p_id (rec_product (hd (combineRecommendations affinityList [] [] engineWeights)))
        = Some 20
   \<and> recommendation_score (hd (combineRecommendations affinityList [] [] engineWeights)) = 40
   \<and> (\<exists>r. r \<in> set (combineRecommendations affinityList collaborativeList segmentList engineWeights)
         \<and> map_option p_id (rec_product r) = Some 20 \<and> 40 \<le> recommendation_score r)
   \<and> sorted_wrt (\<lambda>r s. recommendation_score s \<le> recommendation_score r)
        (combineRecommendations affinityList collaborativeList segmentList engineWeights)"
proof -
  let ?r' = "hd (combineRecommendations affinityList [] [] engineWeights)"
  have n: "20 \<notin> productIdsOf []" by (simp add: productIdsOf_def)
  have h1: "affinityList = affinityList \<or> 20 \<notin> productIdsOf affinityList" by simp
  have h2: "[] = collaborativeList \<or> 20 \<notin> productIdsOf []" using n by simp
  have h3: "[] = segmentList \<or> 20 \<notin> productIdsOf []" using n by simp
  have h4: "?r' \<in> set (combineRecommendations affinityList [] [] engineWeights)"
    unfolding affinity_only by simp
  have h5: "map_option p_id (rec_product ?r') = Some 20"
    unfolding affinity_only by simp
  have sc: "recommendation_score ?r' = 40"
    unfolding affinity_only by simp
  from combined_score_monotone_in_sources [OF h1 h2 h3 h4 h5] n h4 h5 sc
  show ?thesis unfolding sc by blast
qed

end
